theory Spec2Isabelle
  imports Main "HOL-Library.Sublist"
begin

section \<open>JavaScript strings\<close>

text \<open>
  Strings of the page are modelled as \<open>string\<close>; one \<open>char\<close> stands for one UTF-16 code unit,
  so the model covers the texts whose code units are below 256. \<open>is_ws\<close> is the part of the
  ECMAScript WhiteSpace and LineTerminator classes in that range, which is what
  \<^verbatim>\<open>String.prototype.trim\<close> strips.
\<close>

definition is_ws :: "char \<Rightarrow> bool" where
  "is_ws c = (of_char c \<in> {9, 10, 11, 12, 13, 32, 160 :: nat})"

definition trim :: "string \<Rightarrow> string" where
  "trim s = rev (dropWhile is_ws (rev (dropWhile is_ws s)))"

text \<open>
  \<^verbatim>\<open>toLowerCase\<close> on that range: the letters \<open>A\<close> to \<open>Z\<close> and the accented capitals
  192 to 222 (without the multiplication sign, 215) move up by 32.
\<close>

definition lower_char :: "char \<Rightarrow> char" where
  "lower_char c =
     (let n = (of_char c :: nat) in
      if (65 \<le> n \<and> n \<le> 90) \<or> (192 \<le> n \<and> n \<le> 222 \<and> n \<noteq> 215)
      then char_of (n + 32) else c)"

definition toLowerCase :: "string \<Rightarrow> string" where
  "toLowerCase s = map lower_char s"

text \<open>\<^verbatim>\<open>s.includes(sub)\<close>: \<open>sub\<close> occurs in \<open>s\<close> as a contiguous block.\<close>

fun str_includes :: "string \<Rightarrow> string \<Rightarrow> bool" where
  "str_includes [] sub = (sub = [])"
| "str_includes (c # cs) sub = (prefix sub (c # cs) \<or> str_includes cs sub)"

definition startsWith :: "string \<Rightarrow> string \<Rightarrow> bool" where
  "startsWith s p = prefix p s"

text \<open>\<^verbatim>\<open>a || b\<close> on strings: the empty string is falsy.\<close>

definition or_else :: "'a list \<Rightarrow> 'a list \<Rightarrow> 'a list" where
  "or_else a b = (if a \<noteq> [] then a else b)"

text \<open>
  A link that the result enricher returns may hold characters beyond the range above (a
  redirect target is decoded from UTF-8), so such a link is kept as the list of its UTF-16
  code units; \<open>code_units\<close> gives the code units of a string of the model.
\<close>

definition code_units :: "string \<Rightarrow> nat list" where
  "code_units s = map of_char s"

text \<open>\<^verbatim>\<open>el?.innerText?.trim() || ''\<close> for an element that may be missing and whose text may be undefined.\<close>

definition opt_trim :: "string option \<Rightarrow> string" where
  "opt_trim t = (case t of None \<Rightarrow> [] | Some s \<Rightarrow> trim s)"

section \<open>Outcomes of calls into the controlled page\<close>

text \<open>A call of the automation layer either returns a value or throws an error with a message.\<close>

datatype 'a outcome = Throws string | Returns 'a

section \<open>URL query parameters\<close>

text \<open>
  \<^verbatim>\<open>new URL(href)\<close> and \<^verbatim>\<open>url.searchParams.get(name)\<close> as the page gives them for the
  \<^verbatim>\<open>href\<close> of an anchor, which is a serialised URL. \<open>URL_new\<close> gives the query string of an
  absolute http(s) URL with a host and \<open>None\<close> where the constructor throws. The query is
  split at \<open>&\<close>, each non-empty piece at its first \<open>=\<close>; in name and value \<open>+\<close> becomes a
  space, \<open>%XY\<close> becomes the byte \<open>XY\<close> and any other character its UTF-8 bytes, and the
  bytes are decoded as UTF-8 the way the platform does it: a malformed sequence gives
  U+FFFD and the byte that broke it is read again.
\<close>

definition hex_val :: "char \<Rightarrow> nat option" where
  "hex_val c = (let n = (of_char c :: nat) in
     if 48 \<le> n \<and> n \<le> 57 then Some (n - 48)
     else if 65 \<le> n \<and> n \<le> 70 then Some (n - 55)
     else if 97 \<le> n \<and> n \<le> 102 then Some (n - 87)
     else None)"

definition utf8_bytes :: "char \<Rightarrow> nat list" where
  "utf8_bytes c = (let n = (of_char c :: nat) in
     if n < 128 then [n] else [192 + n div 64, 128 + n mod 64])"

fun percent_bytes :: "string \<Rightarrow> nat list" where
  "percent_bytes (c # h1 # h2 # cs) =
     (if c = CHR ''%'' then
        (case (hex_val h1, hex_val h2) of
           (Some a, Some b) \<Rightarrow> (16 * a + b) # percent_bytes cs
         | _ \<Rightarrow> utf8_bytes c @ percent_bytes (h1 # h2 # cs))
      else utf8_bytes c @ percent_bytes (h1 # h2 # cs))"
| "percent_bytes (c # cs) = utf8_bytes c @ percent_bytes cs"
| "percent_bytes [] = []"

text \<open>
  The UTF-8 decoder: the code point collected so far, the number of continuation bytes
  still needed, and the bounds for the next byte. The result is the list of code points.
\<close>

fun utf8_dec :: "nat \<Rightarrow> nat \<Rightarrow> nat \<Rightarrow> nat \<Rightarrow> nat list \<Rightarrow> nat list" where
  "utf8_dec cp needed lo hi [] = (if needed = 0 then [] else [65533])"
| "utf8_dec cp needed lo hi (b # bs) =
     (if needed = 0 then
        (if b < 128 then b # utf8_dec 0 0 128 191 bs
         else if 194 \<le> b \<and> b \<le> 223 then utf8_dec (b mod 32) 1 128 191 bs
         else if 224 \<le> b \<and> b \<le> 239 then
           utf8_dec (b mod 16) 2 (if b = 224 then 160 else 128) (if b = 237 then 159 else 191) bs
         else if 240 \<le> b \<and> b \<le> 244 then
           utf8_dec (b mod 8) 3 (if b = 240 then 144 else 128) (if b = 244 then 143 else 191) bs
         else 65533 # utf8_dec 0 0 128 191 bs)
      else if b < lo \<or> hi < b then 65533 # utf8_dec 0 0 128 191 (b # bs)
      else if needed = 1 then (cp * 64 + b mod 64) # utf8_dec 0 0 128 191 bs
      else utf8_dec (cp * 64 + b mod 64) (needed - 1) 128 191 bs)"

definition utf16_units :: "nat \<Rightarrow> nat list" where
  "utf16_units cp =
     (if cp < 65536 then [cp]
      else [55296 + (cp - 65536) div 1024, 56320 + (cp - 65536) mod 1024])"

definition utf8_decode :: "nat list \<Rightarrow> nat list" where
  "utf8_decode bs = concat (map utf16_units (utf8_dec 0 0 128 191 bs))"

definition plus_to_space :: "string \<Rightarrow> string" where
  "plus_to_space s = map (\<lambda>c. if c = CHR ''+'' then CHR '' '' else c) s"

fun split_on :: "char \<Rightarrow> string \<Rightarrow> string list" where
  "split_on d [] = [[]]"
| "split_on d (c # cs) =
     (if c = d then [] # split_on d cs
      else (case split_on d cs of [] \<Rightarrow> [[c]] | p # ps \<Rightarrow> (c # p) # ps))"

definition form_decode :: "string \<Rightarrow> nat list" where
  "form_decode t = utf8_decode (percent_bytes (plus_to_space t))"

definition parse_pair :: "string \<Rightarrow> nat list \<times> nat list" where
  "parse_pair p =
     (let name = takeWhile (\<lambda>c. c \<noteq> CHR ''='') p;
          rest = dropWhile (\<lambda>c. c \<noteq> CHR ''='') p
      in (form_decode name, form_decode (tl rest)))"

definition searchParams :: "string \<Rightarrow> (nat list \<times> nat list) list" where
  "searchParams q = map parse_pair (filter (\<lambda>p. p \<noteq> []) (split_on CHR ''&'' q))"

definition searchParams_get :: "string \<Rightarrow> string \<Rightarrow> nat list option" where
  "searchParams_get q name = map_of (searchParams q) (code_units name)"

definition strip_scheme :: "string \<Rightarrow> string option" where
  "strip_scheme href =
     (if startsWith href ''https://'' then Some (drop 8 href)
      else if startsWith href ''http://'' then Some (drop 7 href)
      else None)"

definition URL_new :: "string \<Rightarrow> string option" where
  "URL_new href =
     (case strip_scheme href of
        None \<Rightarrow> None
      | Some rest \<Rightarrow>
          if takeWhile (\<lambda>c. c \<notin> set ''/?#'') rest = [] then None
          else
            (let nofrag = takeWhile (\<lambda>c. c \<noteq> CHR ''#'') href
             in Some (tl (dropWhile (\<lambda>c. c \<noteq> CHR ''?'') nofrag))))"

section \<open>Result enricher: the first result link of a secondary search\<close>

text \<open>
  The page function of \<^verbatim>\<open>getFirstGoogleResultLink\<close> reads, for each of its three selectors in
  order, the matching nodes in document order. A node is an anchor itself
  (\<^verbatim>\<open>node.tagName === 'A'\<close>) or lies under an anchor or under none (\<^verbatim>\<open>node.closest('a')\<close>);
  either way only the anchor's \<^verbatim>\<open>href\<close> is read.
\<close>

datatype search_node = AnchorNode string | InnerNode "string option"

fun anchor_of :: "search_node \<Rightarrow> string option" where
  "anchor_of (AnchorNode href) = Some href"
| "anchor_of (InnerNode a) = a"

record search_dom =
  sd_groups :: "search_node list list"
  sd_generic :: "string option"

definition wrapper_prefix :: string where
  "wrapper_prefix = ''https://www.google.com/url?q=''"

text \<open>One pass over the nodes of a selector: \<open>Some r\<close> when the function returns \<open>r\<close>.\<close>

fun scan_nodes :: "search_node list \<Rightarrow> nat list option" where
  "scan_nodes [] = None"
| "scan_nodes (n # ns) =
     (case anchor_of n of
        None \<Rightarrow> scan_nodes ns
      | Some href \<Rightarrow>
          if href \<noteq> [] \<and> \<not> str_includes href ''/search?'' \<and> \<not> startsWith href wrapper_prefix
          then Some (code_units href)
          else if startsWith href wrapper_prefix then
            (case URL_new href of
               Some q \<Rightarrow> Some (or_else (case searchParams_get q ''q'' of None \<Rightarrow> [] | Some v \<Rightarrow> v) [])
             | None \<Rightarrow> scan_nodes ns)
          else scan_nodes ns)"

fun scan_groups :: "search_node list list \<Rightarrow> nat list option" where
  "scan_groups [] = None"
| "scan_groups (g # gs) = (case scan_nodes g of Some r \<Rightarrow> Some r | None \<Rightarrow> scan_groups gs)"

definition firstLink :: "search_dom \<Rightarrow> nat list" where
  "firstLink d =
     (case scan_groups (sd_groups d) of
        Some r \<Rightarrow> r
      | None \<Rightarrow> or_else (case sd_generic d of None \<Rightarrow> [] | Some h \<Rightarrow> code_units h) [])"

text \<open>
  What the outside world answers to a lookup: whether opening and configuring the secondary
  view works (asked again at each attempt, numbered from 0), and for a query whether the
  navigation works and what the result page holds.
\<close>

datatype newpage_outcome = NewPageThrows string | ConfigureThrows string | PageReady

record search_world =
  sw_goto :: "unit outcome"
  sw_dom :: "search_dom outcome"

record enrich_env =
  e_newPage :: "nat \<Rightarrow> newpage_outcome"
  e_search :: "string \<Rightarrow> search_world"

datatype event =
    OpenedSearchView
  | SearchNavigate string
  | SearchEvaluate string
  | RanPrimary
  | RanFallback
  | RanDrilldown
  | ClosedBrowser

record run_state =
  searchPage :: bool
  newPageAttempts :: nat
  events :: "event list"

text \<open>\<^verbatim>\<open>getSearchPage\<close>: the secondary view is created on first use and kept.\<close>

definition getSearchPage :: "enrich_env \<Rightarrow> run_state \<Rightarrow> unit outcome \<times> run_state" where
  "getSearchPage env s =
     (if \<not> searchPage s then
        (case e_newPage env (newPageAttempts s) of
           NewPageThrows m \<Rightarrow> (Throws m, s\<lparr>newPageAttempts := Suc (newPageAttempts s)\<rparr>)
         | ConfigureThrows m \<Rightarrow>
             (Throws m, s\<lparr>searchPage := True, newPageAttempts := Suc (newPageAttempts s),
                           events := events s @ [OpenedSearchView]\<rparr>)
         | PageReady \<Rightarrow>
             (Returns (), s\<lparr>searchPage := True, newPageAttempts := Suc (newPageAttempts s),
                             events := events s @ [OpenedSearchView]\<rparr>))
      else (Returns (), s))"

text \<open>
  \<^verbatim>\<open>getFirstGoogleResultLink(query)\<close>; \<open>None\<close> is an undefined or null argument. Every throw
  inside the \<^verbatim>\<open>try\<close> block ends in the \<^verbatim>\<open>catch\<close>, which returns the empty string. The
  consent dismissal keeps its own errors and the fixed wait is taken not to throw, so
  neither appears. The trace records the navigation and the page evaluation when they are
  attempted.
\<close>

definition getFirstGoogleResultLink ::
  "enrich_env \<Rightarrow> string option \<Rightarrow> run_state \<Rightarrow> nat list \<times> run_state" where
  "getFirstGoogleResultLink env query s =
     (let trimmedQuery = trim (case query of None \<Rightarrow> [] | Some q \<Rightarrow> q) in
      if trimmedQuery = [] then ([], s)
      else
        (case getSearchPage env s of
           (Throws m, s1) \<Rightarrow> ([], s1)
         | (Returns u, s1) \<Rightarrow>
             (let s2 = s1\<lparr>events := events s1 @ [SearchNavigate trimmedQuery]\<rparr> in
              case sw_goto (e_search env trimmedQuery) of
                Throws m \<Rightarrow> ([], s2)
              | Returns u \<Rightarrow>
                  (let s3 = s2\<lparr>events := events s2 @ [SearchEvaluate trimmedQuery]\<rparr> in
                   case sw_dom (e_search env trimmedQuery) of
                     Throws m \<Rightarrow> ([], s3)
                   | Returns d \<Rightarrow> (or_else (firstLink d) [], s3)))))"

section \<open>Anchors of a container and the preferred-anchor search\<close>

text \<open>
  An anchor as the page functions read it: its \<^verbatim>\<open>innerText\<close> (which may be undefined), its
  \<^verbatim>\<open>aria-label\<close> attribute (which may be absent), its resolved \<^verbatim>\<open>href\<close> (empty exactly when
  the element has no \<^verbatim>\<open>href\<close> attribute, so \<^verbatim>\<open>a[href]\<close> selects the anchors with a non-empty
  \<open>a_href\<close>), and whether it matches the selector of the marked apply button
  (\<^verbatim>\<open>.nNzjpf-... a, a.nNzjpf-...\<close>). A container is given by its anchors in document order.
\<close>

record anchor =
  a_innerText :: "string option"
  a_ariaLabel :: "string option"
  a_href :: string
  a_special :: bool

definition has_href :: "anchor \<Rightarrow> bool" where
  "has_href a = (a_href a \<noteq> [])"

definition anchor_text :: "anchor \<Rightarrow> string" where
  "anchor_text a = (case a_innerText a of None \<Rightarrow> [] | Some t \<Rightarrow> toLowerCase (trim t))"

definition anchor_aria :: "anchor \<Rightarrow> string" where
  "anchor_aria a = (case a_ariaLabel a of None \<Rightarrow> [] | Some t \<Rightarrow> toLowerCase t)"

definition apply_match :: "anchor \<Rightarrow> bool" where
  "apply_match a =
     (str_includes (anchor_text a) ''apply'' \<or>
      str_includes (anchor_text a) ''view job'' \<or>
      str_includes (anchor_aria a) ''apply'' \<or>
      str_includes (anchor_aria a) ''view job'' \<or>
      str_includes (anchor_text a) ''learn more'')"

text \<open>\<^verbatim>\<open>root.querySelector(sel)?.href\<close> as a string, empty when there is no match.\<close>

definition href_of :: "anchor option \<Rightarrow> string" where
  "href_of a = (case a of None \<Rightarrow> [] | Some x \<Rightarrow> a_href x)"

text \<open>\<^verbatim>\<open>findApplyLink(root)\<close>; \<open>None\<close> is a null root.\<close>

definition findApplyLink :: "anchor list option \<Rightarrow> string" where
  "findApplyLink root =
     (case root of
        None \<Rightarrow> []
      | Some as \<Rightarrow>
          if href_of (find a_special as) \<noteq> [] then href_of (find a_special as)
          else
            (let anchors = filter has_href as in
             case find apply_match anchors of
               Some a \<Rightarrow> a_href a
             | None \<Rightarrow> or_else (href_of (case anchors of [] \<Rightarrow> None | a # _ \<Rightarrow> Some a)) []))"

section \<open>Job records\<close>

record job =
  j_title :: string
  j_company :: string
  j_location :: string
  j_description :: string
  j_link :: string
  j_applyLink :: string

section \<open>Primary listing strategy: the class-based extraction\<close>

text \<open>
  What the class-based page function reads of one title element (\<^verbatim>\<open>.tNxQIb.PUpOsf\<close>): its
  text and its job card (\<^verbatim>\<open>closest(...) || parentElement\<close>, which may be null). Of the card:
  the first element matching the location, company and description selectors, each with
  its \<^verbatim>\<open>innerText\<close> (\<open>None\<close>: no such element; \<open>Some None\<close>: an element whose text is undefined),
  and its anchors.
\<close>

record card =
  c_locationEl :: "string option option"
  c_companyEl :: "string option option"
  c_descriptionEl :: "string option option"
  c_anchors :: "anchor list"

record title_el =
  t_innerText :: "string option"
  t_card :: "card option"

definition el_text :: "string option option \<Rightarrow> string" where
  "el_text e = (case e of None \<Rightarrow> [] | Some t \<Rightarrow> opt_trim t)"

definition signature :: "string \<Rightarrow> string \<Rightarrow> string \<Rightarrow> string" where
  "signature title company location = title @ ''__'' @ company @ ''__'' @ location"

text \<open>\<^verbatim>\<open>specialLinkEl || jobCard?.querySelector('a[href]')\<close>.\<close>

definition linkEl :: "anchor list \<Rightarrow> anchor option" where
  "linkEl as = (case find a_special as of Some a \<Rightarrow> Some a | None \<Rightarrow> find has_href as)"

definition classBased_job :: "title_el \<Rightarrow> job" where
  "classBased_job t =
     (let title = opt_trim (t_innerText t);
          company = (case t_card t of None \<Rightarrow> [] | Some c \<Rightarrow> el_text (c_companyEl c));
          location = (case t_card t of None \<Rightarrow> [] | Some c \<Rightarrow> el_text (c_locationEl c));
          rawDescription = (case t_card t of None \<Rightarrow> [] | Some c \<Rightarrow> el_text (c_descriptionEl c));
          description = (if rawDescription \<noteq> [] \<and> rawDescription \<noteq> title \<and>
                            rawDescription \<noteq> company \<and> rawDescription \<noteq> location
                         then rawDescription else []);
          applyLink = findApplyLink (map_option c_anchors (t_card t));
          link = or_else (case t_card t of None \<Rightarrow> [] | Some c \<Rightarrow> href_of (linkEl (c_anchors c)))
                   (or_else applyLink [])
      in \<lparr>j_title = title, j_company = company, j_location = location,
          j_description = description, j_link = link, j_applyLink = applyLink\<rparr>)"

text \<open>One round of \<^verbatim>\<open>titleElements.forEach\<close>: the state is \<^verbatim>\<open>jobs\<close> and the set \<^verbatim>\<open>seen\<close>.\<close>

definition classBased_step :: "job list \<times> string set \<Rightarrow> title_el \<Rightarrow> job list \<times> string set" where
  "classBased_step st t =
     (let jb = classBased_job t;
          sg = signature (j_title jb) (j_company jb) (j_location jb)
      in if j_title jb \<noteq> [] \<and> sg \<notin> snd st
         then (fst st @ [jb], insert sg (snd st))
         else st)"

definition classBasedResults :: "title_el list \<Rightarrow> job list" where
  "classBasedResults titleElements = fst (foldl classBased_step ([], {}) titleElements)"

section \<open>Fallback listing strategy\<close>

subsection \<open>The text-shape tests\<close>

definition is_digit :: "char \<Rightarrow> bool" where
  "is_digit c = (48 \<le> (of_char c :: nat) \<and> (of_char c :: nat) \<le> 57)"

definition is_upper :: "char \<Rightarrow> bool" where
  "is_upper c = (65 \<le> (of_char c :: nat) \<and> (of_char c :: nat) \<le> 90)"

definition is_lower :: "char \<Rightarrow> bool" where
  "is_lower c = (97 \<le> (of_char c :: nat) \<and> (of_char c :: nat) \<le> 122)"

definition is_line_terminator :: "char \<Rightarrow> bool" where
  "is_line_terminator c = (of_char c \<in> {10, 13 :: nat})"

text \<open>
  \<^verbatim>\<open>text.match(/^\d+.*ago$/)\<close> is not null: a digit first, \<open>ago\<close> last, and no line
  terminator between them (the dot does not match one, and digits are none).
\<close>

definition matches_time_ago :: "string \<Rightarrow> bool" where
  "matches_time_ago s =
     (case s of
        [] \<Rightarrow> False
      | c # r \<Rightarrow> is_digit c \<and> 3 \<le> length r \<and> drop (length r - 3) r = ''ago'' \<and>
                 list_all (\<lambda>x. \<not> is_line_terminator x) (take (length r - 3) r))"

text \<open>\<^verbatim>\<open>text.match(/^[A-Z][a-z]+,\s*[A-Z]/)\<close> is not null.\<close>

definition matches_city_region :: "string \<Rightarrow> bool" where
  "matches_city_region s =
     (case s of
        [] \<Rightarrow> False
      | c # r \<Rightarrow> is_upper c \<and> takeWhile is_lower r \<noteq> [] \<and>
                 (case dropWhile is_lower r of
                    [] \<Rightarrow> False
                  | k # r2 \<Rightarrow> k = CHR '','' \<and>
                      (case dropWhile is_ws r2 of [] \<Rightarrow> False | u # _ \<Rightarrow> is_upper u)))"

text \<open>\<^verbatim>\<open>text.split('\n').map(l => l.trim()).filter(l => l.length > 0)\<close>.\<close>

definition text_lines :: "string \<Rightarrow> string list" where
  "text_lines t = filter (\<lambda>l. l \<noteq> []) (map trim (split_on (char_of (10 :: nat)) t))"

subsection \<open>What the fallback page function reads\<close>

text \<open>
  Of one element matched by a listing selector: the title-like node inside it (with its
  text and the anchor found near it, \<^verbatim>\<open>closest('a[href]') || parentElement?.querySelector('a[href]')\<close>),
  its anchors, the \<^verbatim>\<open>href\<close> of \<^verbatim>\<open>element.closest('a[href]')\<close>, and for the company, location
  and description selector lists, in the order of the list, the texts of what each
  selector finds (\<^verbatim>\<open>querySelector\<close>: at most one; \<^verbatim>\<open>querySelectorAll\<close> for the location: all).
  Elements here are HTML elements, whose \<^verbatim>\<open>innerText\<close> is a string.
\<close>

record fb_title =
  ft_innerText :: string
  ft_nearLink :: "string option"

record fb_element =
  fe_jobTitle :: "fb_title option"
  fe_anchors :: "anchor list"
  fe_closestLink :: "string option"
  fe_company :: "string option list"
  fe_location :: "string list list"
  fe_desc :: "string option list"
  fe_allText :: string

text \<open>
  Of one \<^verbatim>\<open>h3\<close>/\<^verbatim>\<open>h4\<close> heading: its text, the three places an anchor is looked for, the
  enclosing result block (\<^verbatim>\<open>closest('[data-ved], .g, .PwjeAc')\<close>) with its text and anchors,
  and the heading's own anchors.
\<close>

record parent_el =
  p_innerText :: string
  p_anchors :: "anchor list"

record heading =
  h_innerText :: string
  h_specialLink :: "string option"
  h_closestLink :: "string option"
  h_parentLink :: "string option"
  h_parent :: "parent_el option"
  h_anchors :: "anchor list"

record fb_page =
  fb_groups :: "fb_element list list"
  fb_headings :: "heading list"

subsection \<open>Fields of a fallback record\<close>

fun pick_company :: "string option list \<Rightarrow> string" where
  "pick_company [] = []"
| "pick_company (None # r) = pick_company r"
| "pick_company (Some t # r) =
     (let text = trim t in
      if text \<noteq> [] \<and> length text < 100 \<and>
         \<not> str_includes (toLowerCase text) ''sri lanka'' \<and>
         \<not> str_includes (toLowerCase text) ''colombo'' \<and>
         \<not> matches_time_ago text
      then text else pick_company r)"

definition location_like :: "string \<Rightarrow> bool" where
  "location_like text =
     (text \<noteq> [] \<and>
      (str_includes (toLowerCase text) ''sri lanka'' \<or>
       str_includes (toLowerCase text) ''colombo'' \<or>
       str_includes (toLowerCase text) ''remote'' \<or>
       str_includes (toLowerCase text) ''hybrid'' \<or>
       matches_city_region text \<or>
       \<not> matches_time_ago text))"

fun pick_location_in :: "string \<Rightarrow> string list \<Rightarrow> string" where
  "pick_location_in companyName [] = []"
| "pick_location_in companyName (t # r) =
     (let text = trim t in
      if location_like text \<and> text \<noteq> companyName then text
      else pick_location_in companyName r)"

fun pick_location :: "string \<Rightarrow> string list list \<Rightarrow> string" where
  "pick_location companyName [] = []"
| "pick_location companyName (g # gs) =
     (let location = pick_location_in companyName g in
      if location \<noteq> [] then location else pick_location companyName gs)"

fun pick_description :: "string \<Rightarrow> string \<Rightarrow> string \<Rightarrow> string option list \<Rightarrow> string" where
  "pick_description title companyName location [] = []"
| "pick_description title companyName location (None # r) =
     pick_description title companyName location r"
| "pick_description title companyName location (Some t # r) =
     (let text = trim t in
      if text \<noteq> [] \<and> 20 < length text \<and> text \<noteq> title \<and> text \<noteq> companyName \<and>
         text \<noteq> location \<and> \<not> matches_time_ago text
      then text else pick_description title companyName location r)"

definition line_description :: "string \<Rightarrow> string \<Rightarrow> string \<Rightarrow> string \<Rightarrow> string" where
  "line_description title companyName location allText =
     (case find (\<lambda>line. line \<noteq> title \<and> line \<noteq> companyName \<and> line \<noteq> location \<and>
                        20 < length line \<and> \<not> matches_time_ago line \<and>
                        \<not> str_includes (toLowerCase line) ''apply'' \<and>
                        \<not> str_includes (toLowerCase line) ''view'')
             (text_lines allText) of
        None \<Rightarrow> []
      | Some line \<Rightarrow> line)"

text \<open>The link element of a listing element, reduced to its \<^verbatim>\<open>href\<close>; \<open>None\<close>: no element found.\<close>

definition fb_linkElement :: "fb_element \<Rightarrow> string option" where
  "fb_linkElement e =
     (let l0 = map_option a_href (linkEl (fe_anchors e));
          l1 = (case l0 of
                  Some h \<Rightarrow> Some h
                | None \<Rightarrow> (case fe_jobTitle e of None \<Rightarrow> None | Some jt \<Rightarrow> ft_nearLink jt))
      in case l1 of Some h \<Rightarrow> Some h | None \<Rightarrow> fe_closestLink e)"

definition fb_job :: "fb_element \<Rightarrow> string \<Rightarrow> string \<Rightarrow> job" where
  "fb_job e title link =
     (let companyName = pick_company (fe_company e);
          location = pick_location companyName (fe_location e);
          d0 = pick_description title companyName location (fe_desc e);
          description = (if d0 = [] then line_description title companyName location (fe_allText e)
                         else d0)
      in \<lparr>j_title = title, j_company = companyName, j_location = location,
          j_description = description, j_link = link,
          j_applyLink = findApplyLink (Some (fe_anchors e))\<rparr>)"

text \<open>One round of \<^verbatim>\<open>elements.forEach\<close>: the state is \<^verbatim>\<open>searchResults\<close> and \<^verbatim>\<open>seenLinks\<close>.\<close>

definition fb_element_step :: "job list \<times> string set \<Rightarrow> fb_element \<Rightarrow> job list \<times> string set" where
  "fb_element_step st e =
     (case (fe_jobTitle e, fb_linkElement e) of
        (Some jt, Some link) \<Rightarrow>
          (let title = trim (ft_innerText jt) in
           if title \<noteq> [] \<and> link \<noteq> [] \<and> link \<notin> snd st \<and> 3 < length title
           then (fst st @ [fb_job e title link], insert link (snd st))
           else st)
      | _ \<Rightarrow> st)"

subsection \<open>The heading scan\<close>

text \<open>The loop over the lines of the enclosing block; the state is company, location, description.\<close>

definition heading_line_step ::
  "string \<Rightarrow> string \<times> string \<times> string \<Rightarrow> string \<Rightarrow> string \<times> string \<times> string" where
  "heading_line_step title st line =
     (case st of (companyName, location, description) \<Rightarrow>
        if line \<noteq> title then
          (if companyName = [] \<and> length line < 50 \<and> \<not> matches_time_ago line
           then (line, location, description)
           else if location = [] \<and>
                   (str_includes (toLowerCase line) ''sri lanka'' \<or>
                    str_includes (toLowerCase line) ''colombo'' \<or>
                    str_includes (toLowerCase line) ''remote'')
           then (companyName, line, description)
           else if description = [] \<and> 20 < length line
           then (companyName, location, line)
           else st)
        else st)"

definition heading_job :: "heading \<Rightarrow> string \<Rightarrow> string \<Rightarrow> job" where
  "heading_job h title link =
     (let info = (case h_parent h of
                    None \<Rightarrow> ([], [], [])
                  | Some p \<Rightarrow> foldl (heading_line_step title) ([], [], []) (text_lines (p_innerText p)))
      in \<lparr>j_title = title, j_company = fst info, j_location = fst (snd info),
          j_description = snd (snd info), j_link = link,
          j_applyLink = findApplyLink
            (Some (case h_parent h of None \<Rightarrow> h_anchors h | Some p \<Rightarrow> p_anchors p))\<rparr>)"

definition heading_linkElement :: "heading \<Rightarrow> string option" where
  "heading_linkElement h =
     (case h_specialLink h of
        Some l \<Rightarrow> Some l
      | None \<Rightarrow> (case h_closestLink h of Some l \<Rightarrow> Some l | None \<Rightarrow> h_parentLink h))"

definition heading_step :: "job list \<times> string set \<Rightarrow> heading \<Rightarrow> job list \<times> string set" where
  "heading_step st h =
     (let title = trim (h_innerText h) in
      if title \<noteq> [] \<and> 3 < length title then
        (case heading_linkElement h of
           None \<Rightarrow> st
         | Some link \<Rightarrow>
             if link \<noteq> [] \<and> link \<notin> snd st \<and>
                (str_includes link ''jobs'' \<or> str_includes link ''google.com'')
             then
               (if \<not> list_ex (\<lambda>r. j_link r = link) (fst st)
                then (fst st @ [heading_job h title link], insert link (snd st))
                else (fst st, insert link (snd st)))
             else st)
      else st)"

definition fallbackResults :: "fb_page \<Rightarrow> job list" where
  "fallbackResults pg =
     fst (foldl heading_step
            (foldl (\<lambda>st g. foldl fb_element_step st g) ([], {}) (fb_groups pg))
            (fb_headings pg))"

section \<open>Summary and enrichment of the last records\<close>

record summary_entry =
  se_title :: string
  se_company :: string
  se_location :: string
  se_search :: "nat list"

text \<open>\<^verbatim>\<open>parts.join(' ')\<close>.\<close>

fun join_space :: "string list \<Rightarrow> string" where
  "join_space [] = []"
| "join_space [x] = x"
| "join_space (x # y # r) = x @ '' '' @ join_space (y # r)"

text \<open>\<^verbatim>\<open>results.slice(-5)\<close>.\<close>

definition jobsToShow :: "job list \<Rightarrow> job list" where
  "jobsToShow results = drop (length results - 5) results"

text \<open>One round of the summary loop: the printed lines of a record and the run state.\<close>

definition summary_step ::
  "enrich_env \<Rightarrow> summary_entry list \<times> run_state \<Rightarrow> job \<Rightarrow> summary_entry list \<times> run_state" where
  "summary_step env st result =
     (let searchQueryParts = filter (\<lambda>p. p \<noteq> []) [j_title result, j_company result];
          looked = (if searchQueryParts \<noteq> []
                    then getFirstGoogleResultLink env (Some (join_space searchQueryParts)) (snd st)
                    else ([], snd st))
      in (fst st @ [\<lparr>se_title = or_else (j_title result) ''N/A'',
                      se_company = or_else (j_company result) ''N/A'',
                      se_location = or_else (j_location result) ''N/A'',
                      se_search = or_else (fst looked) (code_units ''N/A'')\<rparr>],
          snd looked))"

definition summary_loop :: "enrich_env \<Rightarrow> job list \<Rightarrow> run_state \<Rightarrow> summary_entry list \<times> run_state" where
  "summary_loop env results s =
     (if results = [] then ([], s)
      else foldl (summary_step env) ([], s) (jobsToShow results))"

section \<open>Detail drill-down\<close>

text \<open>
  What the page answers in iteration \<open>idx\<close> of the drill-down: whether the activation
  function found and clicked the title marker; the anchors of the detail pane and of the
  active card (either may be missing), from which the job link is searched; the page URL;
  the snapshot of the detail view and the anchors collected there, as the page functions
  return them.
\<close>

record detail_view =
  dv_detailPanel :: "anchor list option"
  dv_activeCard :: "anchor list option"

record snapshot =
  sn_title :: string
  sn_company :: string
  sn_location :: string
  sn_description :: string
  sn_content :: string

record anchor_detail =
  ad_text :: string
  ad_href :: string

record detail_world =
  dw_clicked :: "bool outcome"
  dw_view :: "detail_view outcome"
  dw_url :: string
  dw_snapshot :: "snapshot outcome"
  dw_anchors :: "anchor_detail list outcome"

record job_link =
  jl_index :: nat
  jl_url :: string

record job_detail =
  jd_index :: nat
  jd_url :: string
  jd_applyUrl :: string
  jd_title :: string
  jd_company :: string
  jd_location :: string
  jd_description :: string
  jd_content :: string
  jd_anchors :: "anchor_detail list"

text \<open>The page function that captures the job link: detail pane first, then the active card.\<close>

definition jobLink :: "detail_view \<Rightarrow> string" where
  "jobLink v =
     (let detailLink = findApplyLink (dv_detailPanel v) in
      if detailLink \<noteq> [] then detailLink else findApplyLink (dv_activeCard v))"

text \<open>
  The loop \<^verbatim>\<open>for (idx = 0; idx < jobCount; idx++)\<close> over the remaining indices; the state is
  \<^verbatim>\<open>openedJobLinks\<close> and \<^verbatim>\<open>openedJobDetails\<close>. A throw leaves the loop for the \<^verbatim>\<open>catch\<close>
  around it, with what was pushed so far.
\<close>

fun drill_loop ::
  "(nat \<Rightarrow> detail_world) \<Rightarrow> nat list \<Rightarrow> job_link list \<times> job_detail list
   \<Rightarrow> job_link list \<times> job_detail list" where
  "drill_loop w [] acc = acc"
| "drill_loop w (idx # rest) acc =
     (case dw_clicked (w idx) of
        Throws m \<Rightarrow> acc
      | Returns clicked \<Rightarrow>
          if clicked then
            (case dw_view (w idx) of
               Throws m \<Rightarrow> acc
             | Returns v \<Rightarrow>
                 (let url = or_else (jobLink v) (dw_url (w idx));
                      links = fst acc @ [\<lparr>jl_index = idx + 1, jl_url = url\<rparr>]
                  in case dw_snapshot (w idx) of
                       Throws m \<Rightarrow> (links, snd acc)
                     | Returns sn \<Rightarrow>
                         (case dw_anchors (w idx) of
                            Throws m \<Rightarrow> (links, snd acc)
                          | Returns anchorDetails \<Rightarrow>
                              drill_loop w rest
                                (links,
                                 snd acc @
                                 [\<lparr>jd_index = idx + 1, jd_url = url, jd_applyUrl = url,
                                   jd_title = or_else (sn_title sn) [],
                                   jd_company = or_else (sn_company sn) [],
                                   jd_location = or_else (sn_location sn) [],
                                   jd_description = or_else (sn_description sn) [],
                                   jd_content = or_else (sn_content sn) [],
                                   jd_anchors = anchorDetails\<rparr>]))))
          else drill_loop w rest acc)"

definition drilldown ::
  "nat outcome \<Rightarrow> (nat \<Rightarrow> detail_world) \<Rightarrow> job_link list \<times> job_detail list" where
  "drilldown jobCount w =
     (case jobCount of
        Throws m \<Rightarrow> ([], [])
      | Returns n \<Rightarrow> if n = 0 then ([], []) else drill_loop w [0..<n] ([], []))"

section \<open>The run\<close>

text \<open>
  The run from the point where the search view is loaded. \<open>world\<close> holds what the
  controlled page answers at each stage; waits, \<^verbatim>\<open>page.url()\<close> and \<^verbatim>\<open>browser.close()\<close> are
  taken not to throw. A result \<open>Inl m\<close> is an exception that leaves \<^verbatim>\<open>openChromeAndSearch\<close>
  (the promise is rejected and only \<^verbatim>\<open>console.error\<close> sees it); \<open>Inr\<close> is the printed report.
\<close>

record tab =
  tab_name :: string
  tab_href :: string
  tab_ariaLabel :: string

record job_text =
  jt_index :: nat
  jt_title :: string
  jt_company :: string
  jt_location :: string
  jt_description :: string
  jt_detail :: string
  jt_link :: string
  jt_applyLink :: string

record world =
  w_tabs :: "tab list outcome"
  w_gotoJobs :: "unit outcome"
  w_clickJobs :: "bool outcome"
  w_moreJobs :: "bool outcome"
  w_titleTexts :: "string list outcome"
  w_primary :: "title_el list outcome"
  w_fallback :: "fb_page outcome"
  w_enrich :: enrich_env
  w_jobCount :: "nat outcome"
  w_detail :: "nat \<Rightarrow> detail_world"
  w_jobTexts :: "job_text list outcome"

record report =
  rp_jobsTabNavigated :: bool
  rp_moreJobsClicked :: bool
  rp_titleTexts :: "string list"
  rp_results :: "job list"
  rp_summary :: "summary_entry list"
  rp_details :: "(job_link list \<times> job_detail list) option"
  rp_jobTexts :: "job_text list option"


definition clicked_ok :: "bool outcome \<Rightarrow> bool" where
  "clicked_ok r = (case r of Throws m \<Rightarrow> False | Returns b \<Rightarrow> b)"

text \<open>The jobs-tab navigation: its \<^verbatim>\<open>try\<close> blocks keep every throw inside; the value is \<^verbatim>\<open>jobsTabNavigated\<close>.\<close>

definition navigate_jobs_tab :: "world \<Rightarrow> tab list \<Rightarrow> bool" where
  "navigate_jobs_tab w availableTabs =
     (case find (\<lambda>t. toLowerCase (tab_name t) = ''jobs'' \<or>
                      str_includes (toLowerCase (tab_name t)) ''job'') availableTabs of
        None \<Rightarrow> clicked_ok (w_clickJobs w)
      | Some jobsTab \<Rightarrow>
          if tab_href jobsTab \<noteq> [] then
            (case w_gotoJobs w of
               Returns u \<Rightarrow> True
             | Throws m \<Rightarrow> clicked_ok (w_clickJobs w))
          else clicked_ok (w_clickJobs w))"

text \<open>
  The listing stage: the class-based page function, and the fallback page function only
  when the first returned no record. Neither call is inside a \<^verbatim>\<open>try\<close>.
\<close>

definition listing_stage :: "world \<Rightarrow> run_state \<Rightarrow> (string + job list) \<times> run_state" where
  "listing_stage w s =
     (let s1 = s\<lparr>events := events s @ [RanPrimary]\<rparr> in
      case w_primary w of
        Throws m \<Rightarrow> (Inl m, s1)
      | Returns titleElements \<Rightarrow>
          (let classBased = classBasedResults titleElements in
           if classBased \<noteq> [] then (Inr classBased, s1)
           else
             (let s2 = s1\<lparr>events := events s1 @ [RanFallback]\<rparr> in
              case w_fallback w of
                Throws m \<Rightarrow> (Inl m, s2)
              | Returns pg \<Rightarrow> (Inr (fallbackResults pg), s2))))"

definition openChromeAndSearch ::
  "world \<Rightarrow> bool \<Rightarrow> run_state \<Rightarrow> (string + report) \<times> run_state" where
  "openChromeAndSearch w summaryOnly s =
     (case w_tabs w of
        Throws m \<Rightarrow> (Inl m, s)
      | Returns availableTabs \<Rightarrow>
          (let jobsTabNavigated = navigate_jobs_tab w availableTabs;
               moreJobsClicked = clicked_ok (w_moreJobs w)
           in case w_titleTexts w of
                Throws m \<Rightarrow> (Inl m, s)
              | Returns tNxQIbTexts \<Rightarrow>
                  (case listing_stage w s of
                     (Inl m, s1) \<Rightarrow> (Inl m, s1)
                   | (Inr results, s1) \<Rightarrow>
                       (let sm = summary_loop (w_enrich w) results s1;
                            rp = \<lparr>rp_jobsTabNavigated = jobsTabNavigated,
                                  rp_moreJobsClicked = moreJobsClicked,
                                  rp_titleTexts = tNxQIbTexts,
                                  rp_results = results,
                                  rp_summary = fst sm,
                                  rp_details = None,
                                  rp_jobTexts = None\<rparr>
                        in if summaryOnly
                           then (Inr rp, (snd sm)\<lparr>events := events (snd sm) @ [ClosedBrowser]\<rparr>)
                           else
                             (let s2 = (snd sm)\<lparr>events := events (snd sm) @ [RanDrilldown]\<rparr>;
                                  opened = drilldown (w_jobCount w) (w_detail w);
                                  allJobTexts = (case w_jobTexts w of Throws m \<Rightarrow> [] | Returns ts \<Rightarrow> ts)
                              in (Inr (rp\<lparr>rp_details := Some opened,
                                           rp_jobTexts := Some allJobTexts\<rparr>),
                                  s2\<lparr>events := events s2 @ [ClosedBrowser]\<rparr>))))))"

section \<open>Notions of the specification and sample inputs\<close>

text \<open>
  The target of a redirect wrapper, in the words of the specification: the value of the
  query parameter that follows the wrapper prefix, up to the next parameter or the
  fragment, decoded. A candidate link is a node on an anchor with an address that is a
  wrapper or is no link back into the search itself; the scan passes over every other node.
\<close>

definition wrapped_target :: "string \<Rightarrow> nat list" where
  "wrapped_target href =
     form_decode
       (takeWhile (\<lambda>c. c \<noteq> CHR ''&'' \<and> c \<noteq> CHR ''#'') (drop (length wrapper_prefix) href))"

definition organic_candidate :: "search_node \<Rightarrow> bool" where
  "organic_candidate n =
     (case anchor_of n of
        None \<Rightarrow> False
      | Some href \<Rightarrow> href \<noteq> [] \<and>
          (startsWith href wrapper_prefix \<or> \<not> str_includes href ''/search?''))"

text \<open>A fresh run state, and a world in which every secondary search shows the same result page.\<close>

definition state0 :: run_state where
  "state0 = \<lparr>searchPage = False, newPageAttempts = 0, events = []\<rparr>"

definition enrich_with :: "search_dom \<Rightarrow> enrich_env" where
  "enrich_with d = \<lparr>e_newPage = (\<lambda>n. PageReady),
                    e_search = (\<lambda>q. \<lparr>sw_goto = Returns (), sw_dom = Returns d\<rparr>)\<rparr>"

text \<open>The identity key of a record: the signature string the class-based extraction builds.\<close>

definition identity_key :: "job \<Rightarrow> string" where
  "identity_key j = signature (j_title j) (j_company j) (j_location j)"

text \<open>
  A world in which every stage answers, with the given content for the two listing
  strategies and nothing to drill into; and small page fragments for examples.
\<close>

definition benign_world :: "title_el list \<Rightarrow> fb_page \<Rightarrow> world" where
  "benign_world titleElements pg =
     \<lparr>w_tabs = Returns [], w_gotoJobs = Returns (), w_clickJobs = Returns False,
      w_moreJobs = Returns False, w_titleTexts = Returns [],
      w_primary = Returns titleElements, w_fallback = Returns pg,
      w_enrich = enrich_with \<lparr>sd_groups = [], sd_generic = None\<rparr>,
      w_jobCount = Returns 0,
      w_detail = (\<lambda>i. \<lparr>dw_clicked = Returns False, dw_view = Throws ''detached'', dw_url = [],
                         dw_snapshot = Throws ''detached'', dw_anchors = Throws ''detached''\<rparr>),
      w_jobTexts = Returns []\<rparr>"

definition plain_anchor :: "string \<Rightarrow> string \<Rightarrow> anchor" where
  "plain_anchor text href =
     \<lparr>a_innerText = Some text, a_ariaLabel = None, a_href = href, a_special = False\<rparr>"

definition listing_element :: "string \<Rightarrow> string \<Rightarrow> fb_element" where
  "listing_element title href =
     \<lparr>fe_jobTitle = Some \<lparr>ft_innerText = title, ft_nearLink = None\<rparr>,
      fe_anchors = [plain_anchor title href], fe_closestLink = None,
      fe_company = [], fe_location = [], fe_desc = [], fe_allText = title\<rparr>"

definition titled_card :: "string \<Rightarrow> anchor list \<Rightarrow> title_el" where
  "titled_card title as =
     \<lparr>t_innerText = Some title,
      t_card = Some \<lparr>c_locationEl = None, c_companyEl = None, c_descriptionEl = None,
                     c_anchors = as\<rparr>\<rparr>"

text \<open>Invariants of the extraction loops: the state is the record list and the set of seen keys or links.\<close>

definition keyed :: "job list \<times> string set \<Rightarrow> bool" where
  "keyed st = (distinct (map identity_key (fst st)) \<and> identity_key ` set (fst st) \<subseteq> snd st)"

definition linked :: "job list \<times> string set \<Rightarrow> bool" where
  "linked st = (distinct (map j_link (fst st)) \<and> j_link ` set (fst st) \<subseteq> snd st)"

definition titles_nonempty :: "job list \<times> string set \<Rightarrow> bool" where
  "titles_nonempty st = list_all (\<lambda>j. j_title j \<noteq> []) (fst st)"

definition titles_long :: "job list \<times> string set \<Rightarrow> bool" where
  "titles_long st = list_all (\<lambda>j. 3 < length (j_title j)) (fst st)"




text \<open>
  How an iteration of the drill-down ends: it appends an entry when the title marker was
  activated and the three captures returned; it is skipped when the activation function
  reports that nothing was clicked; otherwise a page call threw.
\<close>

definition is_returns :: "'a outcome \<Rightarrow> bool" where
  "is_returns r = (case r of Throws m \<Rightarrow> False | Returns v \<Rightarrow> True)"

definition iteration_appends :: "(nat \<Rightarrow> detail_world) \<Rightarrow> nat \<Rightarrow> bool" where
  "iteration_appends w idx =
     (dw_clicked (w idx) = Returns True \<and> is_returns (dw_view (w idx)) \<and>
      is_returns (dw_snapshot (w idx)) \<and> is_returns (dw_anchors (w idx)))"

definition iteration_skipped :: "(nat \<Rightarrow> detail_world) \<Rightarrow> nat \<Rightarrow> bool" where
  "iteration_skipped w idx = (dw_clicked (w idx) = Returns False)"

text \<open>A detail view that opens and holds a title, and one whose title marker is gone.\<close>

definition activating :: detail_world where
  "activating =
     \<lparr>dw_clicked = Returns True,
      dw_view = Returns \<lparr>dv_detailPanel = None, dv_activeCard = None\<rparr>,
      dw_url = ''https://www.google.com/search?udm=8'',
      dw_snapshot = Returns \<lparr>sn_title = ''Developer'', sn_company = [], sn_location = [],
                              sn_description = [], sn_content = ''Developer''\<rparr>,
      dw_anchors = Returns []\<rparr>"

definition inert :: detail_world where
  "inert = activating\<lparr>dw_clicked := Returns False\<rparr>"

text \<open>
  The enrichment query of a record in the words of the specification, the queries a trace
  navigated to, and the number of secondary views a trace opened.
\<close>

definition enrichment_query :: "job \<Rightarrow> string" where
  "enrichment_query j = trim (j_title j @ '' '' @ j_company j)"

fun navigated :: "event list \<Rightarrow> string list" where
  "navigated [] = []"
| "navigated (SearchNavigate q # r) = q # navigated r"
| "navigated (e # r) = navigated r"

definition views_opened :: "event list \<Rightarrow> nat" where
  "views_opened evs = length (filter (\<lambda>e. e = OpenedSearchView) evs)"

text \<open>
  The link the world holds for a query: the first link of the result page the secondary
  view shows for it, empty when the navigation or the page evaluation fails.
\<close>

definition page_link :: "enrich_env \<Rightarrow> string \<Rightarrow> nat list" where
  "page_link env q =
     (case sw_goto (e_search env q) of
        Throws m \<Rightarrow> []
      | Returns u \<Rightarrow> (case sw_dom (e_search env q) of Throws m \<Rightarrow> [] | Returns d \<Rightarrow> firstLink d))"

text \<open>
  What one enrichment query comes to, given whether the secondary view is there and how
  many attempts to open it were made: whether the query is navigated to and the link it
  yields, and the view and the attempts afterwards. An empty query asks for nothing; a
  query that finds no view tries to open one, and is lost when that attempt throws.
\<close>

definition lookup_one :: "enrich_env \<Rightarrow> bool \<Rightarrow> nat \<Rightarrow> string \<Rightarrow> bool \<times> nat list" where
  "lookup_one env view k q =
     (if q = [] then (False, [])
      else if view then (True, page_link env q)
      else (case e_newPage env k of
              PageReady \<Rightarrow> (True, page_link env q)
            | ConfigureThrows m \<Rightarrow> (False, [])
            | NewPageThrows m \<Rightarrow> (False, [])))"

definition view_after :: "enrich_env \<Rightarrow> bool \<Rightarrow> nat \<Rightarrow> string \<Rightarrow> bool" where
  "view_after env view k q =
     (if q = [] \<or> view then view
      else (case e_newPage env k of NewPageThrows m \<Rightarrow> False | ConfigureThrows m \<Rightarrow> True
            | PageReady \<Rightarrow> True))"

definition attempts_after :: "bool \<Rightarrow> nat \<Rightarrow> string \<Rightarrow> nat" where
  "attempts_after view k q = (if q = [] \<or> view then k else Suc k)"

fun lookups :: "enrich_env \<Rightarrow> bool \<Rightarrow> nat \<Rightarrow> string list \<Rightarrow> (bool \<times> nat list) list" where
  "lookups env view k [] = []"
| "lookups env view k (q # qs) =
     lookup_one env view k q #
     lookups env (view_after env view k q) (attempts_after view k q) qs"

text \<open>The queries of a sequence that are navigated to.\<close>

definition issued :: "enrich_env \<Rightarrow> bool \<Rightarrow> nat \<Rightarrow> string list \<Rightarrow> string list" where
  "issued env view k qs = map fst (filter (\<lambda>p. fst (snd p)) (zip qs (lookups env view k qs)))"

text \<open>Result pages for examples: one behind a wrapper, one with a plain link.\<close>

definition wrapped_page :: search_dom where
  "wrapped_page =
     \<lparr>sd_groups =
        [[InnerNode None, AnchorNode ''https://www.google.com/search?q=more''],
         [InnerNode (Some ''https://www.google.com/url?q=https%3A%2F%2Ftarget.example%2Fcaf%C3%A9+1&sa=U'')]],
      sd_generic = None\<rparr>"

definition plain_page :: search_dom where
  "plain_page =
     \<lparr>sd_groups = [[AnchorNode ''https://example.com/url?q=https://target.example/job/1'']],
      sd_generic = None\<rparr>"

text \<open>The record collection of a run (empty when the run ended in an exception).\<close>

definition results_of :: "(string + report) \<times> run_state \<Rightarrow> job list" where
  "results_of r = (case fst r of Inl m \<Rightarrow> [] | Inr rp \<Rightarrow> rp_results rp)"

definition empty_page :: fb_page where
  "empty_page = \<lparr>fb_groups = [], fb_headings = []\<rparr>"

text \<open>At most one secondary view was opened, and none while \<^verbatim>\<open>searchPage\<close> is still unset.\<close>

definition view_ok :: "run_state \<Rightarrow> bool" where
  "view_ok s = (views_opened (events s) \<le> 1 \<and> (searchPage s \<or> views_opened (events s) = 0))"


text \<open>Six and seven title markers with different titles, and a record that has a title only.\<close>

definition six_cards :: "title_el list" where
  "six_cards = [titled_card ''Job A'' [], titled_card ''Job B'' [], titled_card ''Job C'' [],
                titled_card ''Job D'' [], titled_card ''Job E'' [], titled_card ''Job F'' []]"

definition seven_cards :: "title_el list" where
  "seven_cards = six_cards @ [titled_card ''Job G'' []]"

definition bare_job :: "string \<Rightarrow> job" where
  "bare_job title = \<lparr>j_title = title, j_company = [], j_location = [], j_description = [],
                      j_link = [], j_applyLink = []\<rparr>"

text \<open>The title and the company of a record carry no surrounding whitespace.\<close>

definition trimmed_fields :: "job \<Rightarrow> bool" where
  "trimmed_fields j = (trim (j_title j) = j_title j \<and> trim (j_company j) = j_company j)"

definition all_trimmed :: "job list \<times> string set \<Rightarrow> bool" where
  "all_trimmed st = list_all trimmed_fields (fst st)"

section \<open>Verified properties\<close>

subsection \<open>Blank queries\<close>

text \<open>
  C10. For a query that is empty or only whitespace (or missing), the enrichment lookup
  returns the empty string and leaves the run state as it was: no secondary view is opened,
  nothing is navigated and nothing is evaluated in the page.
\<close>

theorem C10_blank_query_returns_empty:
  assumes "trim (case query of None \<Rightarrow> [] | Some q \<Rightarrow> q) = []"
  shows "getFirstGoogleResultLink env query s = ([], s)"
  using assms by (simp add: getFirstGoogleResultLink_def)

theorem C10_blank_query_witness:
  "trim (case Some ''  '' of None \<Rightarrow> [] | Some q \<Rightarrow> q) = []
   \<and> getFirstGoogleResultLink
        \<lparr>e_newPage = (\<lambda>n. PageReady),
         e_search = (\<lambda>q. \<lparr>sw_goto = Returns (), sw_dom = Throws ''detached''\<rparr>)\<rparr>
        (Some ''  '')
        \<lparr>searchPage = False, newPageAttempts = 0, events = []\<rparr>
      = ([], \<lparr>searchPage = False, newPageAttempts = 0, events = []\<rparr>)"
proof -
  have h: "trim (case Some ''  '' of None \<Rightarrow> [] | Some q \<Rightarrow> q) = []"
    by (simp add: trim_def is_ws_def)
  show ?thesis using h C10_blank_query_returns_empty [OF h] by simp
qed

subsection \<open>Redirect unwrapping\<close>

lemma split_on_hd:
  "split_on d s \<noteq> [] \<and> hd (split_on d s) = takeWhile (\<lambda>c. c \<noteq> d) s"
  by (induction s) (auto split: list.splits)

lemma URL_new_wrapper:
  assumes "startsWith href wrapper_prefix"
  shows "URL_new href = Some (''q='' @ takeWhile (\<lambda>c. c \<noteq> CHR ''#'') (drop (length wrapper_prefix) href))"
proof -
  from assms obtain r where h: "href = wrapper_prefix @ r"
    by (auto simp: startsWith_def prefix_def)
  show ?thesis
    unfolding h by (simp add: URL_new_def strip_scheme_def startsWith_def wrapper_prefix_def)
qed

lemma takeWhile_amp_hash:
  "takeWhile (\<lambda>c. c \<noteq> CHR ''&'') (takeWhile (\<lambda>c. c \<noteq> CHR ''#'') r)
   = takeWhile (\<lambda>c. c \<noteq> CHR ''&'' \<and> c \<noteq> CHR ''#'') r"
  by (induction r) auto

lemma utf16_units_small: "cp < 65536 \<Longrightarrow> utf16_units cp = [cp]"
  by (simp add: utf16_units_def)

lemma form_decode_q: "form_decode ''q'' = code_units ''q''"
proof -
  have b: "percent_bytes (plus_to_space ''q'') = [113]" by code_simp
  have d: "utf8_dec 0 0 128 191 [113] = [113]" by code_simp
  have u: "code_units ''q'' = [113]" by code_simp
  show ?thesis
    unfolding form_decode_def utf8_decode_def b d u by (simp add: utf16_units_small)
qed

lemma get_q_first:
  "searchParams_get (''q='' @ r) ''q''
   = Some (form_decode (takeWhile (\<lambda>c. c \<noteq> CHR ''&'') r))"
proof -
  define k where "k = code_units ''q''"
  define v where "v = form_decode (takeWhile (\<lambda>c. c \<noteq> CHR ''&'') r)"
  obtain p ps where sp: "split_on CHR ''&'' (''q='' @ r) = p # ps"
    using split_on_hd [of "CHR ''&''" "''q='' @ r"] by (cases "split_on CHR ''&'' (''q='' @ r)") auto
  have p: "p = ''q='' @ takeWhile (\<lambda>c. c \<noteq> CHR ''&'') r"
    using split_on_hd [of "CHR ''&''" "''q='' @ r"] sp by simp
  then have pne: "p \<noteq> []" by simp
  have pp: "parse_pair p = (k, v)"
    by (simp add: p parse_pair_def form_decode_q k_def v_def)
  have "searchParams_get (''q='' @ r) ''q''
        = map_of (map parse_pair (filter (\<lambda>p. p \<noteq> []) (p # ps))) k"
    by (simp only: searchParams_get_def searchParams_def sp k_def)
  also have "\<dots> = Some v" by (simp add: pne pp)
  finally show ?thesis by (simp only: v_def)
qed

lemma scan_wrapper:
  assumes "anchor_of n = Some href" and "startsWith href wrapper_prefix"
  shows "scan_nodes (n # ns) = Some (wrapped_target href)"
  using assms 
  by (simp add: URL_new_wrapper get_q_first takeWhile_amp_hash wrapped_target_def or_else_def del: append.simps)

lemma scan_plain:
  assumes "anchor_of n = Some href" and "href \<noteq> []" and "\<not> startsWith href wrapper_prefix"
    and "\<not> str_includes href ''/search?''"
  shows "scan_nodes (n # ns) = Some (code_units href)"
  using assms by simp

lemma wrapper_nonempty: "startsWith href wrapper_prefix \<Longrightarrow> href \<noteq> []"
  by (auto simp: startsWith_def wrapper_prefix_def)

lemma scan_skip:
  assumes "\<not> organic_candidate n"
  shows "scan_nodes (n # ns) = scan_nodes ns"
proof (cases "anchor_of n")
  case None
  then show ?thesis by simp
next
  case (Some href)
  with assms have "href = [] \<or> (\<not> startsWith href wrapper_prefix \<and> str_includes href ''/search?'')"
    by (auto simp: organic_candidate_def)
  moreover have "\<not> startsWith [] wrapper_prefix" using wrapper_nonempty by blast
  ultimately show ?thesis using Some by auto
qed

lemma scan_skip_all:
  "list_all (\<lambda>m. \<not> organic_candidate m) pre \<Longrightarrow> scan_nodes (pre @ rest) = scan_nodes rest"
  by (induction pre) (simp_all add: scan_skip del: scan_nodes.simps)

lemma scan_nodes_head:
  "scan_nodes (n # ns) = (case scan_nodes [n] of Some r \<Rightarrow> Some r | None \<Rightarrow> scan_nodes ns)"
proof (cases "anchor_of n")
  case None
  then show ?thesis by simp
next
  case (Some href)
  show ?thesis
  proof (cases "href \<noteq> [] \<and> \<not> str_includes href ''/search?'' \<and> \<not> startsWith href wrapper_prefix")
    case True
    with Some show ?thesis by simp
  next
    case False
    note nf = this
    show ?thesis
    proof (cases "startsWith href wrapper_prefix")
      case True
      with Some nf show ?thesis by (cases "URL_new href") simp_all
    next
      case False
      with Some nf show ?thesis by auto
    qed
  qed
qed

lemma scan_nodes_append:
  "scan_nodes (xs @ ys) = (case scan_nodes xs of Some r \<Rightarrow> Some r | None \<Rightarrow> scan_nodes ys)"
proof (induction xs)
  case Nil
  show ?case by simp
next
  case (Cons n xs)
  have "scan_nodes ((n # xs) @ ys)
        = (case scan_nodes [n] of Some r \<Rightarrow> Some r | None \<Rightarrow> scan_nodes (xs @ ys))"
    using scan_nodes_head [of n "xs @ ys"] by (simp only: append_Cons)
  moreover have "scan_nodes (n # xs)
        = (case scan_nodes [n] of Some r \<Rightarrow> Some r | None \<Rightarrow> scan_nodes xs)"
    by (rule scan_nodes_head)
  ultimately show ?case
    by (cases "scan_nodes [n]") (simp_all only: Cons.IH option.case)
qed

lemma scan_groups_concat: "scan_groups gs = scan_nodes (concat gs)"
proof (induction gs)
  case Nil
  show ?case by simp
next
  case (Cons g gs)
  show ?case
    by (cases "scan_nodes g") (simp_all only: scan_groups.simps concat.simps scan_nodes_append Cons.IH option.case)
qed

lemma lookup_reaches_page:
  assumes "trim q \<noteq> []"
    and "fst (getSearchPage env s) = Returns ()"
    and "sw_goto (e_search env (trim q)) = Returns ()"
    and "sw_dom (e_search env (trim q)) = Returns d"
  shows "fst (getFirstGoogleResultLink env (Some q) s) = firstLink d"
  using assms
  by (cases "getSearchPage env s") (simp add: getFirstGoogleResultLink_def Let_def or_else_def)

text \<open>
  C6 (amended). When the lookup reaches the result page, the first candidate link of the
  scan decides: when its address starts with \<^verbatim>\<open>https://www.google.com/url?q=\<close> the lookup
  returns the decoded target of that wrapper, not the wrapper address; otherwise it
  returns the address as it is.
\<close>

theorem C6_google_wrapper_unwrapped:
  assumes "trim q \<noteq> []"
    and "fst (getSearchPage env s) = Returns ()"
    and "sw_goto (e_search env (trim q)) = Returns ()"
    and "sw_dom (e_search env (trim q)) = Returns d"
    and "concat (sd_groups d) = pre @ n # post"
    and "list_all (\<lambda>m. \<not> organic_candidate m) pre"
    and "organic_candidate n"
    and "anchor_of n = Some href"
  shows "(startsWith href wrapper_prefix \<longrightarrow>
            fst (getFirstGoogleResultLink env (Some q) s) = wrapped_target href) \<and>
         (\<not> startsWith href wrapper_prefix \<longrightarrow>
            fst (getFirstGoogleResultLink env (Some q) s) = code_units href)"
proof -
  have fl: "firstLink d = (case scan_nodes (n # post) of Some r \<Rightarrow> r
              | None \<Rightarrow> or_else (case sd_generic d of None \<Rightarrow> [] | Some h \<Rightarrow> code_units h) [])"
    by (simp only: firstLink_def scan_groups_concat assms(5) scan_skip_all [OF assms(6)])
  have w: "firstLink d = wrapped_target href" if "startsWith href wrapper_prefix"
    unfolding fl by (simp only: scan_wrapper [OF assms(8) that] option.case)
  from assms(7,8) have c: "href \<noteq> [] \<and> (startsWith href wrapper_prefix \<or> \<not> str_includes href ''/search?'')"
    by (simp add: organic_candidate_def)
  have p: "firstLink d = code_units href" if nw: "\<not> startsWith href wrapper_prefix"
  proof -
    from c nw have ne: "href \<noteq> []" and ns: "\<not> str_includes href ''/search?''" by blast+
    have "scan_nodes (n # post) = Some (code_units href)"
      by (rule scan_plain [OF assms(8) ne nw ns])
    then show ?thesis
      unfolding fl by (simp only: option.case)
  qed
  from w p show ?thesis
    by (simp only: lookup_reaches_page [OF assms(1-4)]) blast
qed


theorem C6_google_wrapper_witness:
  "fst (getFirstGoogleResultLink (enrich_with wrapped_page) (Some ''Developer Acme'') state0)
     = code_units ''https://target.example/caf'' @ [233] @ code_units '' 1''
   \<and> fst (getFirstGoogleResultLink (enrich_with plain_page) (Some ''Developer Acme'') state0)
     = code_units ''https://example.com/url?q=https://target.example/job/1''"
proof -
  let ?h = "''https://www.google.com/url?q=https%3A%2F%2Ftarget.example%2Fcaf%C3%A9+1&sa=U''"
  let ?g = "''https://example.com/url?q=https://target.example/job/1''"
  let ?pre = "[InnerNode None, AnchorNode ''https://www.google.com/search?q=more'']"
  have 1: "trim ''Developer Acme'' \<noteq> []" by code_simp
  have 2: "fst (getSearchPage (enrich_with d) state0) = Returns ()" for d
    by (simp add: getSearchPage_def enrich_with_def state0_def)
  have 3: "sw_goto (e_search (enrich_with d) (trim ''Developer Acme'')) = Returns ()" for d
    by (simp add: enrich_with_def)
  have 4: "sw_dom (e_search (enrich_with d) (trim ''Developer Acme'')) = Returns d" for d
    by (simp add: enrich_with_def)
  have 5: "concat (sd_groups wrapped_page) = ?pre @ InnerNode (Some ?h) # []"
    by (simp add: wrapped_page_def)
  have 6: "list_all (\<lambda>m. \<not> organic_candidate m) ?pre" by code_simp
  have 7: "organic_candidate (InnerNode (Some ?h))" by code_simp
  have 8: "anchor_of (InnerNode (Some ?h)) = Some ?h" by simp
  have 9: "startsWith ?h wrapper_prefix" by code_simp
  have t: "takeWhile (\<lambda>c. c \<noteq> CHR ''&'' \<and> c \<noteq> CHR ''#'') (drop (length wrapper_prefix) ?h)
           = ''https%3A%2F%2Ftarget.example%2Fcaf%C3%A9+1''" by code_simp
  have bytes: "percent_bytes (plus_to_space ''https%3A%2F%2Ftarget.example%2Fcaf%C3%A9+1'')
           = code_units ''https://target.example/caf'' @ [195, 169] @ code_units '' 1''"
    by code_simp
  have cu: "code_units ''https://target.example/caf'' @ [195, 169] @ code_units '' 1''
           = [104, 116, 116, 112, 115, 58, 47, 47, 116, 97, 114, 103, 101, 116, 46, 101,
              120, 97, 109, 112, 108, 101, 47, 99, 97, 102, 195, 169, 32, 49]" by code_simp
  have dec: "utf8_dec 0 0 128 191
              [104, 116, 116, 112, 115, 58, 47, 47, 116, 97, 114, 103, 101, 116, 46, 101,
               120, 97, 109, 112, 108, 101, 47, 99, 97, 102, 195, 169, 32, 49]
           = [104, 116, 116, 112, 115, 58, 47, 47, 116, 97, 114, 103, 101, 116, 46, 101,
               120, 97, 109, 112, 108, 101, 47, 99, 97, 102, 233, 32, 49]" by code_simp
  have cu2: "code_units ''https://target.example/caf'' @ [233] @ code_units '' 1''
           = [104, 116, 116, 112, 115, 58, 47, 47, 116, 97, 114, 103, 101, 116, 46, 101,
               120, 97, 109, 112, 108, 101, 47, 99, 97, 102, 233, 32, 49]" by code_simp
  have 10: "wrapped_target ?h = code_units ''https://target.example/caf'' @ [233] @ code_units '' 1''"
    unfolding wrapped_target_def form_decode_def utf8_decode_def t bytes cu dec cu2
    by (simp add: utf16_units_small)
  have a: "fst (getFirstGoogleResultLink (enrich_with wrapped_page) (Some ''Developer Acme'') state0)
             = wrapped_target ?h"
    using C6_google_wrapper_unwrapped [OF 1 2 3 4 5 6 7 8] 9 by blast
  have b5: "concat (sd_groups plain_page) = [] @ AnchorNode ?g # []"
    by (simp add: plain_page_def)
  have b6: "list_all (\<lambda>m. \<not> organic_candidate m) []" by simp
  have b7: "organic_candidate (AnchorNode ?g)" by code_simp
  have b8: "anchor_of (AnchorNode ?g) = Some ?g" by simp
  have b9: "\<not> startsWith ?g wrapper_prefix" by code_simp
  have b: "fst (getFirstGoogleResultLink (enrich_with plain_page) (Some ''Developer Acme'') state0)
             = code_units ?g"
    using C6_google_wrapper_unwrapped [OF 1 2 3 4 b5 b6 b7 b8] b9 by blast
  from a b 10 show ?thesis by (simp only:)
qed

text \<open>
  C6 as stated fails: a wrapper on another host, the address of the claim's own example,
  is returned as it is.
\<close>

theorem C6_foreign_wrapper_counterexample:
  "fst (getFirstGoogleResultLink (enrich_with plain_page) (Some ''Developer Acme'') state0)
   = code_units ''https://example.com/url?q=https://target.example/job/1''
   \<and> fst (getFirstGoogleResultLink (enrich_with plain_page) (Some ''Developer Acme'') state0)
   \<noteq> code_units ''https://target.example/job/1''"
  by code_simp

subsection \<open>Deduplication and the noise filter\<close>

lemma foldl_invariant:
  assumes "\<And>st x. P st \<Longrightarrow> P (f st x)" and "P st"
  shows "P (foldl f st xs)"
  using assms(2) by (induction xs arbitrary: st) (simp_all add: assms(1))

lemma classBased_step_keyed: "keyed st \<Longrightarrow> keyed (classBased_step st t)"
  by (auto simp: keyed_def classBased_step_def identity_key_def Let_def)

lemma classBased_keys_distinct: "distinct (map identity_key (classBasedResults ts))"
proof -
  have "keyed (foldl classBased_step ([], {}) ts)"
    by (rule foldl_invariant [where P = keyed], erule classBased_step_keyed) (simp add: keyed_def)
  then show ?thesis by (simp add: keyed_def classBasedResults_def)
qed

lemma fb_job_link [simp]: "j_link (fb_job e title link) = link"
  by (simp add: fb_job_def Let_def)

lemma fb_job_title [simp]: "j_title (fb_job e title link) = title"
  by (simp add: fb_job_def Let_def)

lemma heading_job_link [simp]: "j_link (heading_job h title link) = link"
  by (simp add: heading_job_def Let_def)

lemma heading_job_title [simp]: "j_title (heading_job h title link) = title"
  by (simp add: heading_job_def Let_def)

lemma fb_element_step_linked: "linked st \<Longrightarrow> linked (fb_element_step st e)"
  by (auto simp: linked_def fb_element_step_def Let_def split: option.splits)

lemma heading_step_linked: "linked st \<Longrightarrow> linked (heading_step st h)"
  by (auto simp: linked_def heading_step_def Let_def split: option.splits)

lemma fallback_links_distinct: "distinct (map j_link (fallbackResults pg))"
proof -
  have groups: "linked (foldl (\<lambda>st g. foldl fb_element_step st g) ([], {}) (fb_groups pg))"
    by (rule foldl_invariant [where P = linked],
        erule foldl_invariant [where P = linked, rotated], erule fb_element_step_linked)
       (simp add: linked_def)
  have "linked (foldl heading_step
            (foldl (\<lambda>st g. foldl fb_element_step st g) ([], {}) (fb_groups pg)) (fb_headings pg))"
    by (rule foldl_invariant [where P = linked], erule heading_step_linked) (rule groups)
  then show ?thesis by (simp add: linked_def fallbackResults_def)
qed

lemma distinct_key_triples:
  "distinct (map identity_key js) \<Longrightarrow> distinct (map (\<lambda>j. (j_title j, j_company j, j_location j)) js)"
  by (induction js) (auto simp: identity_key_def)

text \<open>
  C1 (amended). The records of the class-based strategy have pairwise different identity
  keys (and so pairwise different triples of title, company and location); the records of
  the fallback strategy have pairwise different links.
\<close>

theorem C1_dedup_per_strategy:
  "distinct (map identity_key (classBasedResults titleElements)) \<and>
   distinct (map (\<lambda>j. (j_title j, j_company j, j_location j)) (classBasedResults titleElements)) \<and>
   distinct (map j_link (fallbackResults pg))"
  by (simp add: classBased_keys_distinct distinct_key_triples fallback_links_distinct)

theorem C1_dedup_witness:
  "distinct (map identity_key
     (classBasedResults [titled_card ''Developer'' [], titled_card ''Developer'' [],
                         titled_card ''Engineer'' []]))
   \<and> map j_title
     (classBasedResults [titled_card ''Developer'' [], titled_card ''Developer'' [],
                         titled_card ''Engineer'' []]) = [''Developer'', ''Engineer'']
   \<and> distinct (map j_link
     (fallbackResults \<lparr>fb_groups = [[listing_element ''Developer'' ''https://jobs.example/1'',
                                     listing_element ''Engineer'' ''https://jobs.example/1'']],
                       fb_headings = []\<rparr>))
   \<and> map j_title
     (fallbackResults \<lparr>fb_groups = [[listing_element ''Developer'' ''https://jobs.example/1'',
                                     listing_element ''Engineer'' ''https://jobs.example/1'']],
                       fb_headings = []\<rparr>) = [''Developer'']"
proof -
  let ?ts = "[titled_card ''Developer'' [], titled_card ''Developer'' [], titled_card ''Engineer'' []]"
  let ?pg = "\<lparr>fb_groups = [[listing_element ''Developer'' ''https://jobs.example/1'',
                             listing_element ''Engineer'' ''https://jobs.example/1'']],
               fb_headings = []\<rparr>"
  have a: "map j_title (classBasedResults ?ts) = [''Developer'', ''Engineer'']" by code_simp
  have b: "map j_title (fallbackResults ?pg) = [''Developer'']" by code_simp
  from C1_dedup_per_strategy [of ?ts ?pg] a b show ?thesis by blast
qed

text \<open>
  C1 as stated fails for the fallback strategy: two listing elements with the same title
  and different links give a run whose two records share their identity key.
\<close>

theorem C1_fallback_counterexample:
  "map identity_key (case fst (openChromeAndSearch
            (benign_world []
               \<lparr>fb_groups = [[listing_element ''Software Engineer'' ''https://jobs.example/1'',
                              listing_element ''Software Engineer'' ''https://jobs.example/2'']],
                fb_headings = []\<rparr>)
            True state0) of Inl m \<Rightarrow> [] | Inr rp \<Rightarrow> rp_results rp)
   = [''Software Engineer____'', ''Software Engineer____'']"
  by code_simp

lemma classBased_step_titles: "titles_nonempty st \<Longrightarrow> titles_nonempty (classBased_step st t)"
  by (auto simp: titles_nonempty_def classBased_step_def Let_def)

lemma fb_element_step_titles: "titles_long st \<Longrightarrow> titles_long (fb_element_step st e)"
  by (auto simp: titles_long_def fb_element_step_def Let_def split: option.splits)

lemma heading_step_titles: "titles_long st \<Longrightarrow> titles_long (heading_step st h)"
  by (auto simp: titles_long_def heading_step_def Let_def split: option.splits)

lemma classBased_titles: "list_all (\<lambda>j. j_title j \<noteq> []) (classBasedResults ts)"
proof -
  have "titles_nonempty (foldl classBased_step ([], {}) ts)"
    by (rule foldl_invariant [where P = titles_nonempty], erule classBased_step_titles)
       (simp add: titles_nonempty_def)
  then show ?thesis by (simp add: titles_nonempty_def classBasedResults_def)
qed

lemma fallback_titles: "list_all (\<lambda>j. 3 < length (j_title j)) (fallbackResults pg)"
proof -
  have groups: "titles_long (foldl (\<lambda>st g. foldl fb_element_step st g) ([], {}) (fb_groups pg))"
    by (rule foldl_invariant [where P = titles_long],
        erule foldl_invariant [where P = titles_long, rotated], erule fb_element_step_titles)
       (simp add: titles_long_def)
  have "titles_long (foldl heading_step
            (foldl (\<lambda>st g. foldl fb_element_step st g) ([], {}) (fb_groups pg)) (fb_headings pg))"
    by (rule foldl_invariant [where P = titles_long], erule heading_step_titles) (rule groups)
  then show ?thesis by (simp add: titles_long_def fallbackResults_def)
qed

text \<open>
  C2 (amended). Every record of the fallback strategy, heading scan included, has a title
  of more than three characters; every record of the class-based strategy has a non-empty
  title.
\<close>

theorem C2_noise_filter_per_strategy:
  "(\<forall>j \<in> set (fallbackResults pg). 3 < length (j_title j)) \<and>
   (\<forall>j \<in> set (classBasedResults titleElements). j_title j \<noteq> [])"
  using fallback_titles [of pg] classBased_titles [of titleElements]
  by (simp add: list_all_iff)

theorem C2_noise_filter_witness:
  "\<lparr>j_title = ''Developer'', j_company = [], j_location = [], j_description = [],
     j_link = ''https://jobs.example/2'', j_applyLink = ''https://jobs.example/2''\<rparr>
     \<in> set (fallbackResults
              \<lparr>fb_groups = [[listing_element ''Dev'' ''https://jobs.example/1'',
                             listing_element ''Developer'' ''https://jobs.example/2'']],
               fb_headings = []\<rparr>)
   \<and> 3 < length ''Developer''
   \<and> \<lparr>j_title = ''Developer'', j_company = [], j_location = [], j_description = [],
       j_link = [], j_applyLink = []\<rparr>
     \<in> set (classBasedResults [titled_card ''Developer'' []])
   \<and> ''Developer'' \<noteq> []"
proof -
  let ?pg = "\<lparr>fb_groups = [[listing_element ''Dev'' ''https://jobs.example/1'',
                             listing_element ''Developer'' ''https://jobs.example/2'']],
               fb_headings = []\<rparr>"
  let ?j = "\<lparr>j_title = ''Developer'', j_company = [], j_location = [], j_description = [],
             j_link = ''https://jobs.example/2'', j_applyLink = ''https://jobs.example/2''\<rparr>"
  let ?k = "\<lparr>j_title = ''Developer'', j_company = [], j_location = [], j_description = [],
             j_link = [], j_applyLink = []\<rparr>"
  have a: "fallbackResults ?pg = [?j]" by code_simp
  have b: "classBasedResults [titled_card ''Developer'' []] = [?k]" by code_simp
  from a have ja: "?j \<in> set (fallbackResults ?pg)" by simp
  from b have kb: "?k \<in> set (classBasedResults [titled_card ''Developer'' []])" by simp
  from C2_noise_filter_per_strategy [of ?pg "[titled_card ''Developer'' []]"] ja kb
  have "3 < length (j_title ?j)" and "j_title ?k \<noteq> []" by blast+
  with ja kb show ?thesis by simp
qed

text \<open>
  C2 as stated fails for the class-based strategy: a title of three characters is emitted.
\<close>

theorem C2_primary_counterexample:
  "map j_title (case fst (openChromeAndSearch
                           (benign_world [titled_card ''Dev'' []] \<lparr>fb_groups = [], fb_headings = []\<rparr>)
                           True state0) of Inl m \<Rightarrow> [] | Inr rp \<Rightarrow> rp_results rp)
   = [''Dev''] \<and> length ''Dev'' \<le> 3"
  by code_simp

subsection \<open>The preferred-anchor search\<close>













subsection \<open>Indices of the detail entries\<close>

lemma drill_loop_indices:
  "map jd_index (snd (drill_loop w idxs acc)) =
   map jd_index (snd acc) @
   map Suc (filter (iteration_appends w)
              (takeWhile (\<lambda>i. iteration_skipped w i \<or> iteration_appends w i) idxs))"
proof (induction idxs arbitrary: acc)
  case Nil
  then show ?case by simp
next
  case (Cons idx rest)
  show ?case
    by (cases "dw_clicked (w idx)"; cases "dw_view (w idx)"; cases "dw_snapshot (w idx)";
        cases "dw_anchors (w idx)")
       (simp_all add: Cons.IH iteration_appends_def iteration_skipped_def is_returns_def Let_def)
qed

lemma sorted_filter_takeWhile:
  "sorted_wrt (<) (map Suc (filter P (takeWhile Q [0..<n])))"
proof -
  have "sorted_wrt (<) (takeWhile Q [0..<n] @ dropWhile Q [0..<n])" by simp
  then have "sorted_wrt (<) (takeWhile Q [0..<n])"
    unfolding sorted_wrt_append by blast
  then have "sorted_wrt (<) (filter P (takeWhile Q [0..<n]))"
    by (rule sorted_wrt_filter)
  then show ?thesis by (simp add: sorted_wrt_map)
qed

lemma all_append_contiguous:
  assumes "list_all (iteration_appends w) [0..<n]"
  shows "map Suc (filter (iteration_appends w)
              (takeWhile (\<lambda>i. iteration_skipped w i \<or> iteration_appends w i) [0..<n])) = [1..<Suc n]"
proof -
  from assms have a: "\<forall>i \<in> set [0..<n]. iteration_appends w i" by (simp add: list_all_iff)
  then have tw: "takeWhile (\<lambda>i. iteration_skipped w i \<or> iteration_appends w i) [0..<n] = [0..<n]"
    by (intro takeWhile_eq_all_conv [THEN iffD2]) blast
  from a have fl: "filter (iteration_appends w) [0..<n] = [0..<n]"
    by (intro filter_True) blast
  have "map Suc [0..<n] = [1..<Suc n]" by (simp only: map_Suc_upt One_nat_def)
  then show ?thesis by (simp only: tw fl)
qed

lemma no_throw_all_iterations:
  assumes "list_all (\<lambda>i. iteration_skipped w i \<or> iteration_appends w i) [0..<n]"
  shows "takeWhile (\<lambda>i. iteration_skipped w i \<or> iteration_appends w i) [0..<n] = [0..<n]"
proof -
  from assms have "\<forall>i \<in> set [0..<n]. iteration_skipped w i \<or> iteration_appends w i"
    by (simp add: list_all_iff)
  then show ?thesis by (intro takeWhile_eq_all_conv [THEN iffD2])
qed

text \<open>
  C3. Every appended detail entry carries the number, counted from 1, of the drill-down
  iteration that produced it, whatever the other iterations did: the indices are those of
  the appending iterations before the first throw, in order, so they increase strictly;
  an iteration that does not activate appends nothing and shifts no later index (when no
  page call throws, the indices are exactly the numbers of the iterations that
  activated); and when every iteration appends, the indices are \<open>1, ..., n\<close>.
\<close>

theorem C3_detail_indices:
  "map jd_index (snd (drilldown (Returns n) w)) =
     map Suc (filter (iteration_appends w)
                (takeWhile (\<lambda>i. iteration_skipped w i \<or> iteration_appends w i) [0..<n]))
   \<and> sorted_wrt (<) (map jd_index (snd (drilldown (Returns n) w)))
   \<and> (list_all (\<lambda>i. iteration_skipped w i \<or> iteration_appends w i) [0..<n] \<longrightarrow>
        map jd_index (snd (drilldown (Returns n) w))
          = map Suc (filter (iteration_appends w) [0..<n]))
   \<and> (list_all (iteration_appends w) [0..<n] \<longrightarrow>
        map jd_index (snd (drilldown (Returns n) w)) = [1..<Suc n])"
proof -
  have eq: "map jd_index (snd (drilldown (Returns n) w)) =
     map Suc (filter (iteration_appends w)
                (takeWhile (\<lambda>i. iteration_skipped w i \<or> iteration_appends w i) [0..<n]))"
    by (cases "n = 0") (simp_all add: drilldown_def drill_loop_indices)
  have nt: "map Suc (filter (iteration_appends w)
                (takeWhile (\<lambda>i. iteration_skipped w i \<or> iteration_appends w i) [0..<n]))
            = map Suc (filter (iteration_appends w) [0..<n])"
    if "list_all (\<lambda>i. iteration_skipped w i \<or> iteration_appends w i) [0..<n]"
    by (simp only: no_throw_all_iterations [OF that])
  show ?thesis
    unfolding eq using sorted_filter_takeWhile all_append_contiguous nt by blast
qed

theorem C3_detail_indices_witness:
  "list_all (\<lambda>i. iteration_skipped (\<lambda>i. if i = 2 then inert else activating) i \<or>
                  iteration_appends (\<lambda>i. if i = 2 then inert else activating) i) [0..<5]
   \<and> map jd_index (snd (drilldown (Returns 5) (\<lambda>i. if i = 2 then inert else activating)))
       = [1, 2, 4, 5]
   \<and> list_all (iteration_appends (\<lambda>i. activating)) [0..<3]
   \<and> map jd_index (snd (drilldown (Returns 3) (\<lambda>i. activating))) = [1, 2, 3]"
proof -
  let ?w = "\<lambda>i::nat. if i = 2 then inert else activating"
  have g: "list_all (\<lambda>i. iteration_skipped ?w i \<or> iteration_appends ?w i) [0..<5]" by code_simp
  have f: "map Suc (filter (iteration_appends ?w) [0..<5]) = [1, 2, 4, 5]" by code_simp
  have "map jd_index (snd (drilldown (Returns 5) ?w)) = map Suc (filter (iteration_appends ?w) [0..<5])"
    using C3_detail_indices [of 5 ?w] g by blast
  with f have a: "map jd_index (snd (drilldown (Returns 5) ?w)) = [1, 2, 4, 5]" by (simp only:)
  have h: "list_all (iteration_appends (\<lambda>i. activating)) [0..<3]" by code_simp
  have u: "[1..<Suc 3] = [1, 2, 3]" by code_simp
  have "map jd_index (snd (drilldown (Returns 3) (\<lambda>i. activating))) = [1..<Suc 3]"
    using C3_detail_indices [of 3 "\<lambda>i. activating"] h by blast
  with u have b: "map jd_index (snd (drilldown (Returns 3) (\<lambda>i. activating))) = [1, 2, 3]"
    by (simp only:)
  from g a h b show ?thesis by blast
qed

subsection \<open>Exceptions of the listing stage\<close>

text \<open>
  C5. The class-based page function is called outside any \<^verbatim>\<open>try\<close>: when it throws, the
  exception leaves the run and no report is produced.
\<close>

theorem C5_listing_throw_escapes:
  "fst (openChromeAndSearch
          ((benign_world [titled_card ''Developer'' []] \<lparr>fb_groups = [], fb_headings = []\<rparr>)
             \<lparr>w_primary := Throws ''Execution context was destroyed''\<rparr>)
          True state0)
   = Inl ''Execution context was destroyed''"
  by code_simp

subsection \<open>The strategy chain\<close>

text \<open>
  C9. When the class-based page function returns at least one record, the listing stage
  ends with these records and the fallback page function is not called (the trace gains
  \<open>RanPrimary\<close> only); when it returns none, the fallback page function is called and its
  records are the result as they are. The records of the listing stage are the record
  collection of the run.
\<close>

theorem C9_strategy_chain:
  "(w_primary w = Returns titleElements \<and> classBasedResults titleElements \<noteq> [] \<longrightarrow>
      listing_stage w s =
        (Inr (classBasedResults titleElements), s\<lparr>events := events s @ [RanPrimary]\<rparr>)) \<and>
   (w_primary w = Returns titleElements \<and> classBasedResults titleElements = [] \<and>
    w_fallback w = Returns pg \<longrightarrow>
      listing_stage w s =
        (Inr (fallbackResults pg), s\<lparr>events := events s @ [RanPrimary, RanFallback]\<rparr>)) \<and>
   (is_returns (w_tabs w) \<and> is_returns (w_titleTexts w) \<and> fst (listing_stage w s) = Inr results \<longrightarrow>
      map_sum id rp_results (fst (openChromeAndSearch w summaryOnly s)) = Inr results)"
proof (intro conjI impI)
  assume "w_primary w = Returns titleElements \<and> classBasedResults titleElements \<noteq> []"
  then show "listing_stage w s =
        (Inr (classBasedResults titleElements), s\<lparr>events := events s @ [RanPrimary]\<rparr>)"
    by (simp add: listing_stage_def Let_def)
next
  assume "w_primary w = Returns titleElements \<and> classBasedResults titleElements = [] \<and>
    w_fallback w = Returns pg"
  then show "listing_stage w s =
        (Inr (fallbackResults pg), s\<lparr>events := events s @ [RanPrimary, RanFallback]\<rparr>)"
    by (simp add: listing_stage_def Let_def)
next
  assume h: "is_returns (w_tabs w) \<and> is_returns (w_titleTexts w) \<and> fst (listing_stage w s) = Inr results"
  then obtain s1 where l: "listing_stage w s = (Inr results, s1)"
    by (cases "listing_stage w s") simp
  from h obtain tabs texts where "w_tabs w = Returns tabs" "w_titleTexts w = Returns texts"
    by (cases "w_tabs w"; cases "w_titleTexts w") (simp_all add: is_returns_def)
  with l show "map_sum id rp_results (fst (openChromeAndSearch w summaryOnly s)) = Inr results"
    by (simp add: openChromeAndSearch_def Let_def)
qed

theorem C9_strategy_chain_witness:
  "listing_stage (benign_world [titled_card ''Developer'' []]
                    \<lparr>fb_groups = [[listing_element ''Engineer'' ''https://jobs.example/2'']],
                     fb_headings = []\<rparr>) state0
     = (Inr (classBasedResults [titled_card ''Developer'' []]),
        state0\<lparr>events := events state0 @ [RanPrimary]\<rparr>)
   \<and> listing_stage (benign_world []
                    \<lparr>fb_groups = [[listing_element ''Engineer'' ''https://jobs.example/2'']],
                     fb_headings = []\<rparr>) state0
     = (Inr (fallbackResults \<lparr>fb_groups = [[listing_element ''Engineer'' ''https://jobs.example/2'']],
                              fb_headings = []\<rparr>),
        state0\<lparr>events := events state0 @ [RanPrimary, RanFallback]\<rparr>)
   \<and> map_sum id rp_results
        (fst (openChromeAndSearch
                (benign_world []
                    \<lparr>fb_groups = [[listing_element ''Engineer'' ''https://jobs.example/2'']],
                     fb_headings = []\<rparr>) True state0))
     = Inr (fallbackResults \<lparr>fb_groups = [[listing_element ''Engineer'' ''https://jobs.example/2'']],
                              fb_headings = []\<rparr>)"
proof -
  let ?pg = "\<lparr>fb_groups = [[listing_element ''Engineer'' ''https://jobs.example/2'']],
              fb_headings = []\<rparr>"
  let ?ts = "[titled_card ''Developer'' []]"
  have p1: "w_primary (benign_world ?ts ?pg) = Returns ?ts" by (simp add: benign_world_def)
  have n1: "classBasedResults ?ts \<noteq> []" by code_simp
  have p2: "w_primary (benign_world [] ?pg) = Returns []" by (simp add: benign_world_def)
  have n2: "classBasedResults [] = []" by code_simp
  have f2: "w_fallback (benign_world [] ?pg) = Returns ?pg" by (simp add: benign_world_def)
  have t2: "is_returns (w_tabs (benign_world [] ?pg))" "is_returns (w_titleTexts (benign_world [] ?pg))"
    by (simp_all add: benign_world_def is_returns_def)
  have a: "listing_stage (benign_world ?ts ?pg) state0
     = (Inr (classBasedResults ?ts), state0\<lparr>events := events state0 @ [RanPrimary]\<rparr>)"
    using C9_strategy_chain [of "benign_world ?ts ?pg" ?ts state0] p1 n1 by blast
  have b: "listing_stage (benign_world [] ?pg) state0
     = (Inr (fallbackResults ?pg), state0\<lparr>events := events state0 @ [RanPrimary, RanFallback]\<rparr>)"
    using C9_strategy_chain [of "benign_world [] ?pg" "[]" state0 ?pg] p2 n2 f2 by blast
  from b have b': "fst (listing_stage (benign_world [] ?pg) state0) = Inr (fallbackResults ?pg)"
    by simp
  have c: "map_sum id rp_results (fst (openChromeAndSearch (benign_world [] ?pg) True state0))
     = Inr (fallbackResults ?pg)"
    using C9_strategy_chain [of "benign_world [] ?pg" "[]" state0 ?pg "fallbackResults ?pg" True] t2 b'
    by blast
  from a b c show ?thesis by blast
qed

subsection \<open>Enrichment lookups\<close>

lemma navigated_append: "navigated (xs @ ys) = navigated xs @ navigated ys"
  by (induction xs rule: navigated.induct) simp_all

lemma views_opened_append: "views_opened (xs @ ys) = views_opened xs + views_opened ys"
  by (simp add: views_opened_def)

lemma trim_ws_front: "is_ws c \<Longrightarrow> trim (c # s) = trim s"
  by (simp add: trim_def)

lemma trim_ws_back:
  assumes "is_ws c"
  shows "trim (s @ [c]) = trim s"
proof (cases "\<forall>x \<in> set s. is_ws x")
  case True
  then have d: "dropWhile is_ws s = []" by simp
  from True have e: "dropWhile is_ws (s @ [c]) = dropWhile is_ws [c]"
    by (intro dropWhile_append2) blast
  show ?thesis unfolding trim_def e d using assms by simp
next
  case False
  then obtain x where "x \<in> set s" and "\<not> is_ws x" by blast
  then have e: "dropWhile is_ws (s @ [c]) = dropWhile is_ws s @ [c]"
    by (rule dropWhile_append1)
  show ?thesis unfolding trim_def e using assms by simp
qed

lemma space_is_ws: "is_ws CHR '' ''"
  by (simp add: is_ws_def)

lemma trim_join_parts:
  "trim (join_space (filter (\<lambda>p. p \<noteq> []) [t, c])) = trim (t @ '' '' @ c)"
proof (cases "t = []")
  case True
  note t = this
  show ?thesis
  proof (cases "c = []")
    case True
    with t show ?thesis by (simp add: trim_ws_front [OF space_is_ws])
  next
    case False
    with t show ?thesis by (simp add: trim_ws_front [OF space_is_ws])
  qed
next
  case False
  note t = this
  show ?thesis
  proof (cases "c = []")
    case True
    with t show ?thesis using trim_ws_back [OF space_is_ws, of t] by simp
  next
    case False
    with t show ?thesis by simp
  qed
qed

lemma lookup_view_ok: "view_ok s \<Longrightarrow> view_ok (snd (getFirstGoogleResultLink env q s))"
  by (cases "e_newPage env (newPageAttempts s)";
      cases "sw_goto (e_search env (trim (case q of None \<Rightarrow> [] | Some x \<Rightarrow> x)))";
      cases "sw_dom (e_search env (trim (case q of None \<Rightarrow> [] | Some x \<Rightarrow> x)))")
     (auto simp: view_ok_def getFirstGoogleResultLink_def getSearchPage_def Let_def views_opened_def)

lemma summary_step_view_ok: "view_ok (snd st) \<Longrightarrow> view_ok (snd (summary_step env st j))"
  by (simp add: summary_step_def Let_def lookup_view_ok)

lemma summary_fold_view_ok: "view_ok (snd st) \<Longrightarrow> view_ok (snd (foldl (summary_step env) st js))"
  by (induction js arbitrary: st) (simp_all add: summary_step_view_ok)

lemma trim_Nil [simp]: "trim [] = []"
  by (simp add: trim_def)

lemma dropWhile_all: "list_all P (dropWhile P s) \<longleftrightarrow> list_all P s"
  by (induction s) auto

lemma trim_Nil_iff: "trim s = [] \<longleftrightarrow> list_all is_ws s"
proof -
  have "trim s = [] \<longleftrightarrow> list_all is_ws (dropWhile is_ws s)"
    by (simp add: trim_def dropWhile_eq_Nil_conv list_all_iff)
  then show ?thesis by (simp only: dropWhile_all)
qed

lemma trim_prefix: "\<exists>r. dropWhile is_ws s = trim s @ r"
proof -
  let ?u = "dropWhile is_ws s"
  have "trim s @ rev (takeWhile is_ws (rev ?u))
        = rev (takeWhile is_ws (rev ?u) @ dropWhile is_ws (rev ?u))"
    by (simp only: rev_append trim_def)
  also have "\<dots> = rev (rev ?u)" by (simp only: takeWhile_dropWhile_id)
  also have "\<dots> = ?u" by simp
  finally show ?thesis by metis
qed

lemma trim_head: "dropWhile is_ws (trim s) = trim s"
proof (cases "trim s")
  case Nil
  then show ?thesis by simp
next
  case (Cons c t)
  obtain r where r: "dropWhile is_ws s = trim s @ r" using trim_prefix by blast
  with Cons have "hd (dropWhile is_ws s) = c" by simp
  moreover from r Cons have "dropWhile is_ws s \<noteq> []" by simp
  ultimately have "\<not> is_ws c" using hd_dropWhile [of is_ws s] by auto
  with Cons show ?thesis by simp
qed

lemma trim_idem: "trim (trim s) = trim s"
proof -
  have "dropWhile is_ws (rev (trim s)) = rev (trim s)"
    by (simp add: trim_def)
  then show ?thesis
    by (simp add: trim_def [of "trim s"] trim_head)
qed

lemma query_nonempty:
  assumes "trimmed_fields j"
  shows "enrichment_query j \<noteq> [] \<longleftrightarrow> (j_title j \<noteq> [] \<or> j_company j \<noteq> [])"
proof -
  have t: "j_title j \<noteq> [] \<longrightarrow> \<not> list_all is_ws (j_title j)"
    using assms trim_Nil_iff [of "j_title j"] by (auto simp: trimmed_fields_def)
  have c: "j_company j \<noteq> [] \<longrightarrow> \<not> list_all is_ws (j_company j)"
    using assms trim_Nil_iff [of "j_company j"] by (auto simp: trimmed_fields_def)
  have "enrichment_query j \<noteq> [] \<longleftrightarrow>
        \<not> list_all is_ws (j_title j) \<or> \<not> list_all is_ws (j_company j)"
    by (auto simp: enrichment_query_def trim_Nil_iff is_ws_def)
  with t c show ?thesis by auto
qed

lemma filter_queries:
  assumes "list_all trimmed_fields js"
  shows "filter (\<lambda>q. q \<noteq> []) (map enrichment_query js)
         = map enrichment_query (filter (\<lambda>j. j_title j \<noteq> [] \<or> j_company j \<noteq> []) js)"
  using assms by (induction js) (simp_all add: query_nonempty)

lemma list_all_drop: "list_all P xs \<Longrightarrow> list_all P (drop n xs)"
  by (auto simp: list_all_iff dest: in_set_dropD)

lemma opt_trim_idem: "trim (opt_trim t) = opt_trim t"
  by (cases t) (simp_all add: opt_trim_def trim_idem)

lemma el_text_idem: "trim (el_text e) = el_text e"
  by (cases e) (simp_all add: el_text_def opt_trim_idem)

lemma classBased_job_trimmed: "trimmed_fields (classBased_job t)"
  by (cases "t_card t") (simp_all add: trimmed_fields_def classBased_job_def Let_def opt_trim_idem el_text_idem)

lemma classBased_step_trimmed: "all_trimmed st \<Longrightarrow> all_trimmed (classBased_step st t)"
  by (simp add: all_trimmed_def classBased_step_def Let_def classBased_job_trimmed)

lemma classBased_trimmed: "list_all trimmed_fields (classBasedResults ts)"
proof -
  have "all_trimmed (foldl classBased_step ([], {}) ts)"
    by (rule foldl_invariant [where P = all_trimmed], erule classBased_step_trimmed)
       (simp add: all_trimmed_def)
  then show ?thesis by (simp add: all_trimmed_def classBasedResults_def)
qed

lemma pick_company_trimmed: "trim (pick_company cs) = pick_company cs"
  by (induction cs rule: pick_company.induct) (simp_all add: Let_def trim_idem)

lemma fb_element_step_trimmed: "all_trimmed st \<Longrightarrow> all_trimmed (fb_element_step st e)"
  by (auto simp: all_trimmed_def fb_element_step_def Let_def trimmed_fields_def fb_job_def
      trim_idem pick_company_trimmed split: option.splits)

lemma text_lines_trimmed: "list_all (\<lambda>l. trim l = l) (text_lines t)"
  by (simp add: text_lines_def list_all_iff trim_idem image_iff) (auto simp: trim_idem)

lemma heading_lines_company:
  assumes "list_all (\<lambda>l. trim l = l) ls" and "trim (fst st) = fst st"
  shows "trim (fst (foldl (heading_line_step title) st ls)) = fst (foldl (heading_line_step title) st ls)"
  using assms
proof (induction ls arbitrary: st)
  case Nil
  then show ?case by simp
next
  case (Cons l ls)
  from Cons.prems have "trim (fst (heading_line_step title st l)) = fst (heading_line_step title st l)"
    by (cases st) (simp add: heading_line_step_def)
  with Cons show ?case by simp
qed

lemma heading_job_trimmed: "trim title = title \<Longrightarrow> trimmed_fields (heading_job h title link)"
  using heading_lines_company [OF text_lines_trimmed, of "([], [], [])"]
  by (cases "h_parent h") (simp_all add: trimmed_fields_def heading_job_def Let_def)

lemma heading_step_trimmed: "all_trimmed st \<Longrightarrow> all_trimmed (heading_step st h)"
  by (auto simp: all_trimmed_def heading_step_def Let_def heading_job_trimmed trim_idem
      split: option.splits)

lemma fallback_trimmed: "list_all trimmed_fields (fallbackResults pg)"
proof -
  have groups: "all_trimmed (foldl (\<lambda>st g. foldl fb_element_step st g) ([], {}) (fb_groups pg))"
    by (rule foldl_invariant [where P = all_trimmed],
        erule foldl_invariant [where P = all_trimmed, rotated], erule fb_element_step_trimmed)
       (simp add: all_trimmed_def)
  have "all_trimmed (foldl heading_step
            (foldl (\<lambda>st g. foldl fb_element_step st g) ([], {}) (fb_groups pg)) (fb_headings pg))"
    by (rule foldl_invariant [where P = all_trimmed], erule heading_step_trimmed) (rule groups)
  then show ?thesis by (simp add: all_trimmed_def fallbackResults_def)
qed


lemma lookup_step:
  "fst (getFirstGoogleResultLink env (Some q) s)
     = snd (lookup_one env (searchPage s) (newPageAttempts s) (trim q)) \<and>
   searchPage (snd (getFirstGoogleResultLink env (Some q) s))
     = view_after env (searchPage s) (newPageAttempts s) (trim q) \<and>
   newPageAttempts (snd (getFirstGoogleResultLink env (Some q) s))
     = attempts_after (searchPage s) (newPageAttempts s) (trim q) \<and>
   navigated (events (snd (getFirstGoogleResultLink env (Some q) s)))
     = navigated (events s) @
       (if fst (lookup_one env (searchPage s) (newPageAttempts s) (trim q)) then [trim q] else [])"
proof (cases "trim q = []")
  case True
  then show ?thesis
    by (simp add: getFirstGoogleResultLink_def lookup_one_def view_after_def attempts_after_def)
next
  case False
  then show ?thesis
    by (cases "e_newPage env (newPageAttempts s)"; cases "sw_goto (e_search env (trim q))";
        cases "sw_dom (e_search env (trim q))"; cases "searchPage s")
       (simp_all add: getFirstGoogleResultLink_def getSearchPage_def lookup_one_def view_after_def
          attempts_after_def page_link_def Let_def navigated_append or_else_def)
qed

lemma blank_query: "enrichment_query j = [] \<longleftrightarrow> trim (j_title j @ '' '' @ j_company j) = []"
  by (simp add: enrichment_query_def)

lemma summary_step_effect:
  "map se_search (fst (summary_step env st j))
     = map se_search (fst st) @
       [or_else (snd (lookup_one env (searchPage (snd st)) (newPageAttempts (snd st))
                        (enrichment_query j))) (code_units ''N/A'')] \<and>
   searchPage (snd (summary_step env st j))
     = view_after env (searchPage (snd st)) (newPageAttempts (snd st)) (enrichment_query j) \<and>
   newPageAttempts (snd (summary_step env st j))
     = attempts_after (searchPage (snd st)) (newPageAttempts (snd st)) (enrichment_query j) \<and>
   navigated (events (snd (summary_step env st j)))
     = navigated (events (snd st)) @
       (if fst (lookup_one env (searchPage (snd st)) (newPageAttempts (snd st))
                  (enrichment_query j)) then [enrichment_query j] else [])"
proof (cases "j_title j = [] \<and> j_company j = []")
  case True
  then have q: "enrichment_query j = []"
    by (simp add: enrichment_query_def trim_ws_front [OF space_is_ws])
  from True show ?thesis
    unfolding q
    by (simp add: summary_step_def lookup_one_def view_after_def attempts_after_def)
next
  case False
  then have ne: "filter (\<lambda>p. p \<noteq> []) [j_title j, j_company j] \<noteq> []" by auto
  define parts where "parts = join_space (filter (\<lambda>p. p \<noteq> []) [j_title j, j_company j])"
  have tq: "trim parts = enrichment_query j"
    unfolding parts_def enrichment_query_def by (rule trim_join_parts)
  have looked: "summary_step env st j =
      (fst st @ [\<lparr>se_title = or_else (j_title j) ''N/A'',
                   se_company = or_else (j_company j) ''N/A'',
                   se_location = or_else (j_location j) ''N/A'',
                   se_search = or_else (fst (getFirstGoogleResultLink env (Some parts) (snd st)))
                                 (code_units ''N/A'')\<rparr>],
       snd (getFirstGoogleResultLink env (Some parts) (snd st)))"
    using ne unfolding parts_def by (simp add: summary_step_def Let_def del: filter.simps)
  show ?thesis
    unfolding looked using lookup_step [of env parts "snd st"] by (simp add: tq)
qed

lemma issued_Nil [simp]: "issued env view k [] = []"
  by (simp add: issued_def)

lemma issued_Cons:
  "issued env view k (q # qs) =
     (if fst (lookup_one env view k q) then [q] else []) @
     issued env (view_after env view k q) (attempts_after view k q) qs"
  by (simp add: issued_def)

lemma summary_fold_effect:
  "map se_search (fst (foldl (summary_step env) st js))
     = map se_search (fst st) @
       map (\<lambda>r. or_else (snd r) (code_units ''N/A''))
         (lookups env (searchPage (snd st)) (newPageAttempts (snd st)) (map enrichment_query js)) \<and>
   navigated (events (snd (foldl (summary_step env) st js)))
     = navigated (events (snd st)) @
       issued env (searchPage (snd st)) (newPageAttempts (snd st)) (map enrichment_query js)"
proof (induction js arbitrary: st)
  case Nil
  show ?case by simp
next
  case (Cons j js)
  note step = summary_step_effect [of env st j]
  note ih = Cons.IH [of "summary_step env st j"]
  from step ih show ?case by (simp add: issued_Cons)
qed

lemma lookups_ready:
  assumes "view \<or> e_newPage env k = PageReady" and "list_all (\<lambda>q. q \<noteq> []) qs"
  shows "lookups env view k qs = map (\<lambda>q. (True, page_link env q)) qs"
  using assms
proof (induction qs arbitrary: view k)
  case Nil
  show ?case by simp
next
  case (Cons q qs)
  from Cons.prems have one: "lookup_one env view k q = (True, page_link env q)"
    and va: "view_after env view k q = True"
    by (auto simp: lookup_one_def view_after_def)
  from Cons.prems have "list_all (\<lambda>q. q \<noteq> []) qs" by simp
  with Cons.IH [of True "attempts_after view k q"] one va show ?case by simp
qed

lemma issued_ready:
  assumes "view \<or> e_newPage env k = PageReady" and "list_all (\<lambda>q. q \<noteq> []) qs"
  shows "issued env view k qs = qs"
proof -
  have "map fst (filter (\<lambda>p. fst (snd p)) (zip xs (map (\<lambda>q. (True, f q)) xs))) = xs"
    for xs :: "string list" and f :: "string \<Rightarrow> nat list"
    by (induction xs) simp_all
  then show ?thesis by (simp only: issued_def lookups_ready [OF assms])
qed

lemma listing_stage_state:
  "searchPage (snd (listing_stage w s)) = searchPage s \<and>
   newPageAttempts (snd (listing_stage w s)) = newPageAttempts s \<and>
   navigated (events (snd (listing_stage w s))) = navigated (events s) \<and>
   views_opened (events (snd (listing_stage w s))) = views_opened (events s)"
  by (cases "w_primary w"; cases "w_fallback w")
     (simp_all add: listing_stage_def Let_def navigated_append views_opened_def)

lemma listing_results_queries:
  assumes "fst (listing_stage w s) = Inr rs"
  shows "list_all (\<lambda>j. enrichment_query j \<noteq> []) rs \<and> list_all (\<lambda>j. j_title j \<noteq> []) rs"
proof -
  have good: "list_all (\<lambda>j. enrichment_query j \<noteq> []) xs \<and> list_all (\<lambda>j. j_title j \<noteq> []) xs"
    if "list_all trimmed_fields xs" and "list_all (\<lambda>j. j_title j \<noteq> []) xs" for xs
    using that by (induction xs) (simp_all add: query_nonempty)
  have long: "list_all (\<lambda>j. j_title j \<noteq> []) (fallbackResults pg)" for pg
    using fallback_titles [of pg] by (auto simp: list_all_iff)
  from assms have "(\<exists>ts. rs = classBasedResults ts) \<or> (\<exists>pg. rs = fallbackResults pg)"
    by (cases "w_primary w"; cases "w_fallback w")
       (auto simp: listing_stage_def Let_def split: if_splits)
  then show ?thesis
    using good [OF classBased_trimmed classBased_titles] good [OF fallback_trimmed long] by auto
qed

lemma run_results:
  assumes "map_sum id rp_results (fst (openChromeAndSearch w summaryOnly s)) = Inr results"
  shows "fst (listing_stage w s) = Inr results \<and>
         map_sum id rp_summary (fst (openChromeAndSearch w summaryOnly s))
           = Inr (fst (summary_loop (w_enrich w) results (snd (listing_stage w s)))) \<and>
         events (snd (openChromeAndSearch w summaryOnly s))
           = events (snd (summary_loop (w_enrich w) results (snd (listing_stage w s)))) @
             (if summaryOnly then [ClosedBrowser] else [RanDrilldown, ClosedBrowser])"
proof (cases "w_tabs w")
  case (Throws m)
  with assms show ?thesis by (simp add: openChromeAndSearch_def)
next
  case tabs: (Returns tabs)
  show ?thesis
  proof (cases "w_titleTexts w")
    case (Throws m)
    with assms tabs show ?thesis by (simp add: openChromeAndSearch_def Let_def)
  next
    case texts: (Returns texts)
    obtain r s1 where l: "listing_stage w s = (r, s1)" by (cases "listing_stage w s")
    show ?thesis
    proof (cases r)
      case (Inl m)
      with assms tabs texts l show ?thesis by (simp add: openChromeAndSearch_def Let_def)
    next
      case (Inr rs)
      with assms tabs texts l show ?thesis
        by (cases summaryOnly) (simp_all add: openChromeAndSearch_def Let_def)
    qed
  qed
qed

lemma summary_loop_effect:
  "map se_search (fst (summary_loop env results s))
     = map (\<lambda>r. or_else (snd r) (code_units ''N/A''))
         (lookups env (searchPage s) (newPageAttempts s)
            (map enrichment_query (drop (length results - 5) results))) \<and>
   navigated (events (snd (summary_loop env results s)))
     = navigated (events s) @
       issued env (searchPage s) (newPageAttempts s)
         (map enrichment_query (drop (length results - 5) results))"
  using summary_fold_effect [of env "([], s)" "drop (length results - 5) results"]
  by (cases "results = []") (simp_all add: summary_loop_def jobsToShow_def)

lemma summary_loop_view_ok: "view_ok s \<Longrightarrow> view_ok (snd (summary_loop env results s))"
  using summary_fold_view_ok [of "([], s)" env] by (simp add: summary_loop_def)

subsection \<open>Enrichment queries of the summary\<close>

lemma run_queries:
  assumes "map_sum id rp_results (fst (openChromeAndSearch w summaryOnly state0)) = Inr results"
  shows "navigated (events (snd (openChromeAndSearch w summaryOnly state0)))
           = issued (w_enrich w) False 0
               (map enrichment_query (drop (length results - 5) results)) \<and>
         (e_newPage (w_enrich w) 0 = PageReady \<longrightarrow>
            navigated (events (snd (openChromeAndSearch w summaryOnly state0)))
              = map enrichment_query
                  (filter (\<lambda>j. j_title j \<noteq> [] \<or> j_company j \<noteq> [])
                     (drop (length results - 5) results))) \<and>
         views_opened (events (snd (openChromeAndSearch w summaryOnly state0))) \<le> 1"
proof -
  let ?s1 = "snd (listing_stage w state0)"
  let ?last = "drop (length results - 5) results"
  note run = run_results [OF assms]
  note st = listing_stage_state [of w state0]
  have s0: "searchPage state0 = False" "newPageAttempts state0 = 0" "events state0 = []"
    by (simp_all add: state0_def)
  have nav: "navigated (events (snd (openChromeAndSearch w summaryOnly state0)))
           = issued (w_enrich w) False 0 (map enrichment_query ?last)"
    using run st summary_loop_effect [of "w_enrich w" results ?s1]
    by (cases summaryOnly) (simp_all add: navigated_append s0)
  from run have "fst (listing_stage w state0) = Inr results" by blast
  then have good: "list_all (\<lambda>j. enrichment_query j \<noteq> []) results"
    and titled: "list_all (\<lambda>j. j_title j \<noteq> []) results"
    using listing_results_queries by blast+
  from good have q: "list_all (\<lambda>q. q \<noteq> []) (map enrichment_query ?last)"
    using list_all_drop [of "\<lambda>j. enrichment_query j \<noteq> []" results "length results - 5"]
    by (simp add: list_all_iff)
  from titled have "list_all (\<lambda>j. j_title j \<noteq> []) ?last" by (rule list_all_drop)
  then have f: "filter (\<lambda>j. j_title j \<noteq> [] \<or> j_company j \<noteq> []) ?last = ?last"
    by (simp add: list_all_iff)
  have ready: "navigated (events (snd (openChromeAndSearch w summaryOnly state0)))
              = map enrichment_query (filter (\<lambda>j. j_title j \<noteq> [] \<or> j_company j \<noteq> []) ?last)"
    if "e_newPage (w_enrich w) 0 = PageReady"
    unfolding nav f using issued_ready [of False "w_enrich w" 0, OF _ q] that by simp
  have "view_ok state0" by (simp add: view_ok_def state0_def views_opened_def)
  then have "view_ok ?s1" using st by (simp add: view_ok_def)
  then have "view_ok (snd (summary_loop (w_enrich w) results ?s1))" by (rule summary_loop_view_ok)
  then have views: "views_opened (events (snd (openChromeAndSearch w summaryOnly state0))) \<le> 1"
    using run by (simp add: view_ok_def views_opened_def)
  from nav ready views show ?thesis by blast
qed


lemma run_results_intro:
  assumes "w_tabs w = Returns tabs" and "w_titleTexts w = Returns texts"
    and "listing_stage w s = (Inr results, s1)"
  shows "map_sum id rp_results (fst (openChromeAndSearch w summaryOnly s)) = Inr results"
  using assms by (cases summaryOnly) (simp_all add: openChromeAndSearch_def Let_def)

text \<open>
  C7 (amended). In a run that reaches its summary, the queries navigated to are those of
  the last five records only, in discovery order, as far as the secondary view is there
  for them. When the first attempt to open and configure the secondary view succeeds,
  they are the trimmed \<open>title + " " + company\<close> of each of the last five records with a
  non-empty title or company. Whatever the world answers, the run opens at most one
  secondary view.
\<close>

theorem C7_enrichment_queries:
  assumes "map_sum id rp_results (fst (openChromeAndSearch w summaryOnly state0)) = Inr results"
  shows "navigated (events (snd (openChromeAndSearch w summaryOnly state0)))
           = issued (w_enrich w) False 0
               (map enrichment_query (drop (length results - 5) results)) \<and>
         (e_newPage (w_enrich w) 0 = PageReady \<longrightarrow>
            navigated (events (snd (openChromeAndSearch w summaryOnly state0)))
              = map enrichment_query
                  (filter (\<lambda>j. j_title j \<noteq> [] \<or> j_company j \<noteq> [])
                     (drop (length results - 5) results))) \<and>
         views_opened (events (snd (openChromeAndSearch w summaryOnly state0))) \<le> 1"
  using assms by (rule run_queries)

theorem C7_enrichment_queries_witness:
  "map_sum id rp_results (fst (openChromeAndSearch (benign_world seven_cards empty_page) True state0))
     = Inr [bare_job ''Job A'', bare_job ''Job B'', bare_job ''Job C'', bare_job ''Job D'',
            bare_job ''Job E'', bare_job ''Job F'', bare_job ''Job G'']
   \<and> e_newPage (w_enrich (benign_world seven_cards empty_page)) 0 = PageReady
   \<and> navigated (events (snd (openChromeAndSearch (benign_world seven_cards empty_page) True state0)))
     = [''Job C'', ''Job D'', ''Job E'', ''Job F'', ''Job G'']
   \<and> views_opened (events (snd (openChromeAndSearch (benign_world seven_cards empty_page) True state0)))
     \<le> 1"
proof -
  let ?w = "benign_world seven_cards empty_page"
  let ?js = "[bare_job ''Job A'', bare_job ''Job B'', bare_job ''Job C'', bare_job ''Job D'',
              bare_job ''Job E'', bare_job ''Job F'', bare_job ''Job G'']"
  have cb: "classBasedResults seven_cards = ?js" by code_simp
  have ls: "listing_stage ?w state0 = (Inr ?js, state0\<lparr>events := events state0 @ [RanPrimary]\<rparr>)"
    by (simp add: listing_stage_def benign_world_def cb Let_def)
  have tabs: "w_tabs ?w = Returns []" and texts: "w_titleTexts ?w = Returns []"
    by (simp_all add: benign_world_def)
  have res: "map_sum id rp_results (fst (openChromeAndSearch ?w True state0)) = Inr ?js"
    by (rule run_results_intro [OF tabs texts ls])
  have ready: "e_newPage (w_enrich ?w) 0 = PageReady"
    by (simp add: benign_world_def enrich_with_def)
  have q: "map enrichment_query
             (filter (\<lambda>j. j_title j \<noteq> [] \<or> j_company j \<noteq> []) (drop (length ?js - 5) ?js))
           = [''Job C'', ''Job D'', ''Job E'', ''Job F'', ''Job G'']" by code_simp
  from C7_enrichment_queries [OF res] ready
  have "navigated (events (snd (openChromeAndSearch ?w True state0)))
        = map enrichment_query
            (filter (\<lambda>j. j_title j \<noteq> [] \<or> j_company j \<noteq> []) (drop (length ?js - 5) ?js))"
    and v: "views_opened (events (snd (openChromeAndSearch ?w True state0))) \<le> 1" by blast+
  with q have "navigated (events (snd (openChromeAndSearch ?w True state0)))
        = [''Job C'', ''Job D'', ''Job E'', ''Job F'', ''Job G'']" by (simp only:)
  with res ready v show ?thesis by blast
qed

text \<open>
  C7 as stated fails: in a run with six records, each with a title, no query is issued for
  the first record.
\<close>

theorem C7_first_record_counterexample:
  "map j_title (results_of (openChromeAndSearch (benign_world six_cards empty_page) True state0))
     = [''Job A'', ''Job B'', ''Job C'', ''Job D'', ''Job E'', ''Job F'']
   \<and> navigated (events (snd (openChromeAndSearch (benign_world six_cards empty_page) True state0)))
     = [''Job B'', ''Job C'', ''Job D'', ''Job E'', ''Job F'']"
proof -
  let ?w = "benign_world six_cards empty_page"
  let ?js = "[bare_job ''Job A'', bare_job ''Job B'', bare_job ''Job C'',
              bare_job ''Job D'', bare_job ''Job E'', bare_job ''Job F'']"
  have cb: "classBasedResults six_cards = ?js" by code_simp
  have ls: "listing_stage ?w state0 = (Inr ?js, state0\<lparr>events := events state0 @ [RanPrimary]\<rparr>)"
    by (simp add: listing_stage_def benign_world_def cb Let_def)
  have tabs: "w_tabs ?w = Returns []" and texts: "w_titleTexts ?w = Returns []"
    by (simp_all add: benign_world_def)
  have res: "map_sum id rp_results (fst (openChromeAndSearch ?w True state0)) = Inr ?js"
    by (rule run_results_intro [OF tabs texts ls])
  then have titles: "map j_title (results_of (openChromeAndSearch ?w True state0))
      = [''Job A'', ''Job B'', ''Job C'', ''Job D'', ''Job E'', ''Job F'']"
    by (cases "fst (openChromeAndSearch ?w True state0)") (simp_all add: results_of_def bare_job_def)
  have ready: "e_newPage (w_enrich ?w) 0 = PageReady"
    by (simp add: benign_world_def enrich_with_def)
  have q: "map enrichment_query
             (filter (\<lambda>j. j_title j \<noteq> [] \<or> j_company j \<noteq> []) (drop (length ?js - 5) ?js))
           = [''Job B'', ''Job C'', ''Job D'', ''Job E'', ''Job F'']" by code_simp
  from run_queries [OF res] ready
  have "navigated (events (snd (openChromeAndSearch ?w True state0)))
        = map enrichment_query
            (filter (\<lambda>j. j_title j \<noteq> [] \<or> j_company j \<noteq> []) (drop (length ?js - 5) ?js))"
    by blast
  with q have "navigated (events (snd (openChromeAndSearch ?w True state0)))
        = [''Job B'', ''Job C'', ''Job D'', ''Job E'', ''Job F'']" by (simp only:)
  with titles show ?thesis by blast
qed

subsection \<open>The run mode\<close>















end
